theory Spec2Isabelle
  imports Main "HOL-Library.AList"
begin

section \<open>Decoded JSON values and the Python operations the conversions use\<close>

text \<open>
  The conversions of \<^verbatim>\<open>twitter.py\<close> take what \<^verbatim>\<open>json.loads\<close> returns and build
  dictionaries from it. A decoded value is \<^verbatim>\<open>None\<close>, a boolean, an integer (unbounded in
  Python), a float, a string, a list or a dictionary. A dictionary is an association list that
  is read with \<open>map_of\<close> and written with \<open>AList.update\<close>. A float is kept as the text Python
  prints for it: the conversions only test a float for zero and print it, apart from one
  subtraction, which is left to the runtime (below).
\<close>

datatype json =
    JNull
  | JBool bool
  | JInt int
  | JFloat string
  | JStr string
  | JList "json list"
  | JObj "(string \<times> json) list"

text \<open>The exceptions the conversions can raise, as values.\<close>

datatype error = AttributeError | TypeError | IndexError | KeyError | ValueError

text \<open>
  What the conversions call but this file does not define:
  \<^item> \<open>tag_uri\<close>: \<^verbatim>\<open>Source.tag_uri\<close> of \<^verbatim>\<open>source.py\<close>, the tag URI of an id or handle;
  \<^item> \<open>postprocess_activity\<close>: \<^verbatim>\<open>Source.postprocess_activity\<close> of \<^verbatim>\<open>source.py\<close>, which
    \<^verbatim>\<open>tweet_to_activity\<close> calls last and whose result it returns; it may raise;
  \<^item> \<open>repr\<close>: the text Python's \<^verbatim>\<open>%s\<close> gives a list or a dictionary;
  \<^item> \<open>float_sub\<close>: the printed result of a subtraction in which a float takes part.
  Every conversion takes them as its first argument, and every theorem holds for all of them
  unless it says otherwise.
\<close>

record runtime =
  tag_uri :: "json \<Rightarrow> string"
  postprocess_activity :: "json \<Rightarrow> error + json"
  repr :: "json \<Rightarrow> string"
  float_sub :: "json \<Rightarrow> json \<Rightarrow> string"

text \<open>Python's truth value of a decoded JSON value (\<^verbatim>\<open>if x:\<close>, \<^verbatim>\<open>not x\<close>).\<close>

fun truthy :: "json \<Rightarrow> bool" where
  "truthy JNull = False"
| "truthy (JBool b) = b"
| "truthy (JInt i) = (i \<noteq> 0)"
| "truthy (JFloat t) = (t \<noteq> ''0.0'' \<and> t \<noteq> ''-0.0'')"
| "truthy (JStr s) = (s \<noteq> [])"
| "truthy (JList xs) = (xs \<noteq> [])"
| "truthy (JObj kvs) = (kvs \<noteq> [])"

text \<open>\<^verbatim>\<open>d.get(k, default)\<close>: only a dictionary has the method.\<close>

definition dict_get :: "(string \<times> json) list \<Rightarrow> string \<Rightarrow> json \<Rightarrow> json" where
  "dict_get kvs k d = (case map_of kvs k of Some v \<Rightarrow> v | None \<Rightarrow> d)"

fun py_get :: "json \<Rightarrow> string \<Rightarrow> json \<Rightarrow> error + json" where
  "py_get (JObj kvs) k d = Inr (dict_get kvs k d)"
| "py_get _ k d = Inl AttributeError"

text \<open>\<^verbatim>\<open>x[i]\<close> for a constant index \<open>i\<close>: a list or a string is indexed, a dictionary has
  no integer key (the keys of decoded JSON are strings), nothing else can be subscripted.\<close>

fun py_index :: "json \<Rightarrow> nat \<Rightarrow> error + json" where
  "py_index (JList xs) i = (if i < length xs then Inr (xs ! i) else Inl IndexError)"
| "py_index (JStr s) i = (if i < length s then Inr (JStr [s ! i]) else Inl IndexError)"
| "py_index (JObj kvs) i = Inl KeyError"
| "py_index _ i = Inl TypeError"

text \<open>Iteration (\<^verbatim>\<open>for t in x\<close>, \<^verbatim>\<open>tuple(x)\<close>): the elements of a list, the characters of a
  string, the keys of a dictionary; anything else is not iterable.\<close>

fun py_iter :: "json \<Rightarrow> error + json list" where
  "py_iter (JList xs) = Inr xs"
| "py_iter (JStr s) = Inr (map (\<lambda>c. JStr [c]) s)"
| "py_iter (JObj kvs) = Inr (map (\<lambda>kv. JStr (fst kv)) kvs)"
| "py_iter _ = Inl TypeError"

text \<open>A list comprehension whose body can raise: the first exception ends it.\<close>

fun map_err :: "('a \<Rightarrow> error + 'b) \<Rightarrow> 'a list \<Rightarrow> error + 'b list" where
  "map_err f [] = Inr []"
| "map_err f (x # xs) =
     (case f x of
        Inl e \<Rightarrow> Inl e
      | Inr y \<Rightarrow> (case map_err f xs of Inl e \<Rightarrow> Inl e | Inr ys \<Rightarrow> Inr (y # ys)))"

subsection \<open>Printing\<close>

definition digit_char :: "nat \<Rightarrow> char" where
  "digit_char n = ''0123456789'' ! (n mod 10)"

function digits10 :: "nat \<Rightarrow> string" where
  "digits10 n = (if n < 10 then [digit_char n] else digits10 (n div 10) @ [digit_char n])"
  by pat_completeness auto
termination
  by (relation "measure id") auto

declare digits10.simps [simp del]

definition str_int :: "int \<Rightarrow> string" where
  "str_int i = (if i < 0 then CHR ''-'' # digits10 (nat (- i)) else digits10 (nat i))"

text \<open>\<^verbatim>\<open>'%s' % v\<close>.\<close>

fun py_str :: "runtime \<Rightarrow> json \<Rightarrow> string" where
  "py_str rt (JStr s) = s"
| "py_str rt (JInt i) = str_int i"
| "py_str rt JNull = ''None''"
| "py_str rt (JBool b) = (if b then ''True'' else ''False'')"
| "py_str rt (JFloat t) = t"
| "py_str rt v = repr rt v"

text \<open>\<^verbatim>\<open>a - b\<close>: integers (a boolean counts as 0 or 1) subtract exactly, a float makes the
  result a float, anything else is a \<^verbatim>\<open>TypeError\<close>.\<close>

fun int_of_json :: "json \<Rightarrow> int option" where
  "int_of_json (JInt i) = Some i"
| "int_of_json (JBool b) = Some (if b then 1 else 0)"
| "int_of_json _ = None"

fun is_number :: "json \<Rightarrow> bool" where
  "is_number (JInt i) = True"
| "is_number (JBool b) = True"
| "is_number (JFloat t) = True"
| "is_number _ = False"

definition py_sub :: "runtime \<Rightarrow> json \<Rightarrow> json \<Rightarrow> error + json" where
  "py_sub rt a b =
     (case (int_of_json a, int_of_json b) of
        (Some x, Some y) \<Rightarrow> Inr (JInt (x - y))
      | _ \<Rightarrow> if is_number a \<and> is_number b then Inr (JFloat (float_sub rt a b))
             else Inl TypeError)"

subsection \<open>Stripping empty values\<close>

text \<open>The values \<^verbatim>\<open>util.trim_nulls\<close> removes: \<^verbatim>\<open>None\<close>, the empty string, the empty list
  and the empty dictionary. \<^verbatim>\<open>0\<close>, \<^verbatim>\<open>0.0\<close> and \<^verbatim>\<open>False\<close> are not among them.\<close>

fun is_null :: "json \<Rightarrow> bool" where
  "is_null JNull = True"
| "is_null (JStr s) = (s = [])"
| "is_null (JList xs) = (xs = [])"
| "is_null (JObj kvs) = (kvs = [])"
| "is_null _ = False"

text \<open>
  Modelled from the spec: \<^verbatim>\<open>util.trim_nulls\<close> of the \<^verbatim>\<open>webutil\<close> package, which is
  imported by \<^verbatim>\<open>twitter.py\<close> and is not among the sources. The spec's glossary: the
  recursive stripping of any mapping or list entry whose value is null, the empty string, the
  empty list or the empty mapping. The entries are trimmed first and tested afterwards, so a
  dictionary that trimming empties is removed from its parent.
\<close>

fun trim_nulls :: "json \<Rightarrow> json" where
  "trim_nulls (JObj kvs) =
     JObj (filter (\<lambda>(k, v). \<not> is_null v) (map (\<lambda>(k, v). (k, trim_nulls v)) kvs))"
| "trim_nulls (JList xs) = JList (filter (\<lambda>v. \<not> is_null v) (map trim_nulls xs))"
| "trim_nulls v = v"

text \<open>No entry of a dictionary or a list, at any depth, is one of the stripped values.\<close>

fun no_nulls :: "json \<Rightarrow> bool" where
  "no_nulls (JObj kvs) = list_all (\<lambda>(k, v). \<not> is_null v \<and> no_nulls v) kvs"
| "no_nulls (JList xs) = list_all (\<lambda>v. \<not> is_null v \<and> no_nulls v) xs"
| "no_nulls v = True"

section \<open>Regular expressions and timestamps\<close>

text \<open>
  The three patterns of \<^verbatim>\<open>twitter.py\<close> are matched the way Python's backtracking matcher
  does: every piece of a pattern returns the ways it can match a prefix of the input, in the
  order the matcher tries them (a greedy repetition tries the longest first, an alternation its
  alternatives from left to right), and a sequence chains them with \<open>List.bind\<close>. The first
  element of the result is the match Python reports.
\<close>

definition rx_lit :: "string \<Rightarrow> string \<Rightarrow> string list" where
  "rx_lit p s = (if take (length p) s = p then [drop (length p) s] else [])"

text \<open>\<open>rx_many P m\<close>: at least \<open>m\<close> characters of the class \<open>P\<close>, greedy; each way is the
  text matched and the rest of the input.\<close>

definition rx_many :: "(char \<Rightarrow> bool) \<Rightarrow> nat \<Rightarrow> string \<Rightarrow> (string \<times> string) list" where
  "rx_many P m s =
     map (\<lambda>k. (take k s, drop k s)) (rev [m ..< Suc (length (takeWhile P s))])"

text \<open>One character out of each of the given sets, in a row.\<close>

fun rx_classes :: "string list \<Rightarrow> string \<Rightarrow> bool" where
  "rx_classes [] s = True"
| "rx_classes (cl # cls) [] = False"
| "rx_classes (cl # cls) (c # s) = (c \<in> set cl \<and> rx_classes cls s)"

definition rx_alts :: "string list list \<Rightarrow> string \<Rightarrow> (string \<times> string) list" where
  "rx_alts alts s =
     concat (map (\<lambda>a. if rx_classes a s then [(take (length a) s, drop (length a) s)] else [])
                 alts)"

definition to_lower :: "char \<Rightarrow> char" where
  "to_lower c =
     (case map_of (zip ''ABCDEFGHIJKLMNOPQRSTUVWXYZ'' ''abcdefghijklmnopqrstuvwxyz'') c of
        Some l \<Rightarrow> l
      | None \<Rightarrow> c)"

text \<open>An alternation of names, matched without regard to case; a way is the index of the
  name and the rest of the input.\<close>

definition rx_names :: "string list \<Rightarrow> string \<Rightarrow> (nat \<times> string) list" where
  "rx_names names s =
     concat (map (\<lambda>(i, n). if map to_lower (take (length n) s) = n
                             then [(i, drop (length n) s)] else [])
                 (zip [0 ..< length names] names))"

text \<open>\<^verbatim>\<open>re.search\<close>: the first match at the leftmost position that has one.\<close>

fun re_search :: "(string \<Rightarrow> 'a list) \<Rightarrow> string \<Rightarrow> 'a option" where
  "re_search m [] = (case m [] of r # _ \<Rightarrow> Some r | [] \<Rightarrow> None)"
| "re_search m (c # s) = (case m (c # s) of r # _ \<Rightarrow> Some r | [] \<Rightarrow> re_search m s)"

definition is_digit :: "char \<Rightarrow> bool" where
  "is_digit c = (c \<in> set ''0123456789'')"

text \<open>\<^verbatim>\<open>\s\<close> on a pattern without the UNICODE flag: space, tab, line feed, vertical tab,
  form feed, carriage return.\<close>

definition is_space :: "char \<Rightarrow> bool" where
  "is_space c = (c \<in> set [CHR '' '', CHR 0x09, CHR 0x0A, CHR 0x0B, CHR 0x0C, CHR 0x0D])"

text \<open>\<^verbatim>\<open>re.sub(' [+-][0-9]{4} ', ' ', time_str)\<close>: the pattern has a fixed length of seven
  characters; every match, found from left to right without overlap, becomes one space.\<close>

fun strip_utc_offset :: "string \<Rightarrow> string" where
  "strip_utc_offset (c0 # c1 # c2 # c3 # c4 # c5 # c6 # s) =
     (if c0 = CHR '' '' \<and> (c1 = CHR ''+'' \<or> c1 = CHR ''-'') \<and> is_digit c2 \<and> is_digit c3
         \<and> is_digit c4 \<and> is_digit c5 \<and> c6 = CHR '' ''
      then CHR '' '' # strip_utc_offset s
      else c0 # strip_utc_offset (c1 # c2 # c3 # c4 # c5 # c6 # s))"
| "strip_utc_offset s = s"


subsection \<open>\<^verbatim>\<open>datetime.datetime.strptime(s, '%a %b %d %H:%M:%S %Y')\<close>\<close>

text \<open>
  \<^verbatim>\<open>strptime\<close> turns the format into a regular expression, matches it at the start of
  the string without regard to case, and rejects a match that does not reach the end of the
  string. In the C locale the directives are
  \<^item> \<^verbatim>\<open>%a\<close>: \<^verbatim>\<open>mon|tue|wed|thu|fri|sat|sun\<close>, and \<^verbatim>\<open>%b\<close>: \<^verbatim>\<open>jan|feb|...|dec\<close>;
  \<^item> \<^verbatim>\<open>%d\<close>: \<^verbatim>\<open>3[0-1]|[1-2]\d|0[1-9]|[1-9]| [1-9]\<close>;
  \<^item> \<^verbatim>\<open>%H\<close>: \<^verbatim>\<open>2[0-3]|[0-1]\d|\d\<close>, \<^verbatim>\<open>%M\<close>: \<^verbatim>\<open>[0-5]\d|\d\<close>, \<^verbatim>\<open>%S\<close>: \<^verbatim>\<open>6[0-1]|[0-5]\d|\d\<close>;
  \<^item> \<^verbatim>\<open>%Y\<close>: \<^verbatim>\<open>\d\d\d\d\<close>;
  \<^item> a space of the format: \<^verbatim>\<open>\s+\<close>.
\<close>

definition a_weekday :: "string list" where
  "a_weekday = [''mon'', ''tue'', ''wed'', ''thu'', ''fri'', ''sat'', ''sun'']"

definition a_month :: "string list" where
  "a_month = [''jan'', ''feb'', ''mar'', ''apr'', ''may'', ''jun'',
              ''jul'', ''aug'', ''sep'', ''oct'', ''nov'', ''dec'']"

definition dg :: string where
  "dg = ''0123456789''"

definition rx_d :: "string list list" where
  "rx_d = [[''3'', ''01''], [''12'', dg], [''0'', ''123456789''], [''123456789''],
           ['' '', ''123456789'']]"

definition rx_H :: "string list list" where
  "rx_H = [[''2'', ''0123''], [''01'', dg], [dg]]"

definition rx_M :: "string list list" where
  "rx_M = [[''012345'', dg], [dg]]"

definition rx_S :: "string list list" where
  "rx_S = [[''6'', ''01''], [''012345'', dg], [dg]]"

definition rx_Y :: "string list list" where
  "rx_Y = [[dg, dg, dg, dg]]"

text \<open>\<^verbatim>\<open>int(text)\<close> of a matched group: white space around the digits is ignored.\<close>

definition digit_val :: "char \<Rightarrow> nat" where
  "digit_val c = (case map_of (zip ''0123456789'' [0 ..< 10]) c of Some d \<Rightarrow> d | None \<Rightarrow> 0)"

definition int_of_text :: "string \<Rightarrow> nat" where
  "int_of_text s = foldl (\<lambda>a c. 10 * a + digit_val c) 0 (filter is_digit s)"

record datetime =
  year :: nat
  month :: nat
  day :: nat
  hour :: nat
  minute :: nat
  second :: nat

text \<open>The ways the whole format matches a prefix of the input: the fields and the rest.\<close>

definition strptime_match :: "string \<Rightarrow> (datetime \<times> string) list" where
  "strptime_match s0 =
     List.bind (rx_names a_weekday s0) (\<lambda>(a, s1).
     List.bind (rx_many is_space 1 s1) (\<lambda>(w1, s2).
     List.bind (rx_names a_month s2) (\<lambda>(b, s3).
     List.bind (rx_many is_space 1 s3) (\<lambda>(w2, s4).
     List.bind (rx_alts rx_d s4) (\<lambda>(d, s5).
     List.bind (rx_many is_space 1 s5) (\<lambda>(w3, s6).
     List.bind (rx_alts rx_H s6) (\<lambda>(H, s7).
     List.bind (rx_lit '':'' s7) (\<lambda>s8.
     List.bind (rx_alts rx_M s8) (\<lambda>(M, s9).
     List.bind (rx_lit '':'' s9) (\<lambda>s10.
     List.bind (rx_alts rx_S s10) (\<lambda>(S, s11).
     List.bind (rx_many is_space 1 s11) (\<lambda>(w4, s12).
     List.bind (rx_alts rx_Y s12) (\<lambda>(Y, s13).
       [(\<lparr>year = int_of_text Y, month = Suc b, day = int_of_text d, hour = int_of_text H,
          minute = int_of_text M, second = int_of_text S\<rparr>, s13)])))))))))))))"

definition is_leap :: "nat \<Rightarrow> bool" where
  "is_leap y = (y mod 4 = 0 \<and> (y mod 100 \<noteq> 0 \<or> y mod 400 = 0))"

definition days_in_month :: "nat \<Rightarrow> nat \<Rightarrow> nat" where
  "days_in_month y m =
     (if m = 2 then (if is_leap y then 29 else 28)
      else if m \<in> set [4, 6, 9, 11] then 30 else 31)"

text \<open>The constructor of \<^verbatim>\<open>datetime\<close> accepts the years 1 to 9999, a day that the month
  has, and a second below 60 (the pattern of \<^verbatim>\<open>%S\<close> lets 60 and 61 through).\<close>

definition valid_datetime :: "datetime \<Rightarrow> bool" where
  "valid_datetime dt =
     (1 \<le> year dt \<and> year dt \<le> 9999 \<and> 1 \<le> month dt \<and> month dt \<le> 12
      \<and> 1 \<le> day dt \<and> day dt \<le> days_in_month (year dt) (month dt)
      \<and> hour dt \<le> 23 \<and> minute dt \<le> 59 \<and> second dt \<le> 59)"

definition strptime :: "string \<Rightarrow> error + datetime" where
  "strptime s =
     (case strptime_match s of
        [] \<Rightarrow> Inl ValueError
      | (dt, rest) # _ \<Rightarrow>
          if rest \<noteq> [] then Inl ValueError
          else if \<not> valid_datetime dt then Inl ValueError
          else Inr dt)"

definition pad0 :: "nat \<Rightarrow> string \<Rightarrow> string" where
  "pad0 w s = replicate (w - length s) CHR ''0'' @ s"

text \<open>\<^verbatim>\<open>dt.isoformat()\<close> of a datetime without microseconds and without a time zone.\<close>

definition isoformat :: "datetime \<Rightarrow> string" where
  "isoformat dt =
     pad0 4 (digits10 (year dt)) @ ''-'' @ pad0 2 (digits10 (month dt)) @ ''-''
     @ pad0 2 (digits10 (day dt)) @ ''T'' @ pad0 2 (digits10 (hour dt)) @ '':''
     @ pad0 2 (digits10 (minute dt)) @ '':'' @ pad0 2 (digits10 (second dt))"

section \<open>The conversions of the class \<^verbatim>\<open>Twitter\<close>\<close>

definition rfc2822_to_iso8601 :: "json \<Rightarrow> error + json" where
  "rfc2822_to_iso8601 time_str =
     (if \<not> truthy time_str then Inr JNull
      else case time_str of
             JStr s \<Rightarrow>
               (case strptime (strip_utc_offset s) of
                  Inl e \<Rightarrow> Inl e
                | Inr dt \<Rightarrow> Inr (JStr (isoformat dt)))
           | _ \<Rightarrow> Inl TypeError)"

definition DOMAIN :: string where
  "DOMAIN = ''twitter.com''"

definition user_url :: "runtime \<Rightarrow> json \<Rightarrow> string" where
  "user_url rt username = ''http://'' @ DOMAIN @ ''/'' @ py_str rt username"

definition status_url :: "runtime \<Rightarrow> json \<Rightarrow> json \<Rightarrow> string" where
  "status_url rt username sid = user_url rt username @ ''/status/'' @ py_str rt sid"

definition user_to_actor :: "runtime \<Rightarrow> json \<Rightarrow> error + json" where
  "user_to_actor rt user =
     (case user of
        JObj kvs \<Rightarrow>
          (let username = dict_get kvs ''screen_name'' JNull in
           if \<not> truthy username then Inr (JObj [])
           else
             (case rfc2822_to_iso8601 (dict_get kvs ''created_at'' JNull) of
                Inl e \<Rightarrow> Inl e
              | Inr published \<Rightarrow>
                  Inr (trim_nulls (JObj
                    [(''displayName'', dict_get kvs ''name'' JNull),
                     (''image'', JObj [(''url'', dict_get kvs ''profile_image_url'' JNull)]),
                     (''id'', if truthy username then JStr (tag_uri rt username) else JNull),
                     (''published'', published),
                     (''url'', JStr (user_url rt username)),
                     (''location'', JObj [(''displayName'', dict_get kvs ''location'' JNull)]),
                     (''username'', username),
                     (''description'', dict_get kvs ''description'' JNull)]))))
      | _ \<Rightarrow> Inl AttributeError)"


subsection \<open>\<^verbatim>\<open>tweet_to_object\<close>, step by step\<close>

text \<open>\<^verbatim>\<open>d.update({...})\<close> and \<^verbatim>\<open>d[k] = v\<close> on an association list.\<close>

definition dict_update :: "(string \<times> json) list \<Rightarrow> (string \<times> json) list \<Rightarrow> (string \<times> json) list" where
  "dict_update d new = foldl (\<lambda>acc (k, v). AList.update k v acc) d new"

text \<open>
  \<^verbatim>\<open>user = tweet.get('user'); if user: object['author'] = self.user_to_actor(user) ...\<close>:
  the id and the url of the object are set only when the actor has a username.
\<close>

definition add_author :: "runtime \<Rightarrow> (string \<times> json) list \<Rightarrow> json \<Rightarrow> (string \<times> json) list
    \<Rightarrow> error + (string \<times> json) list" where
  "add_author rt tweet sid object =
     (let user = dict_get tweet ''user'' JNull in
      if truthy user then
        (case user_to_actor rt user of
           Inl e \<Rightarrow> Inl e
         | Inr author \<Rightarrow>
             (case py_get author ''username'' JNull of
                Inl e \<Rightarrow> Inl e
              | Inr username \<Rightarrow>
                  if truthy username
                  then Inr (AList.update ''url'' (JStr (status_url rt username sid))
                             (AList.update ''id'' (JStr (tag_uri rt sid))
                               (AList.update ''author'' author object)))
                  else Inr (AList.update ''author'' author object)))
      else Inr object)"

text \<open>
  \<^verbatim>\<open>media_url = entities.get('media', [{}])[0].get('media_url')\<close>, and the image and the
  attachment it gives.
\<close>

definition add_media :: "json \<Rightarrow> (string \<times> json) list \<Rightarrow> error + (string \<times> json) list" where
  "add_media entities object =
     (case py_get entities ''media'' (JList [JObj []]) of
        Inl e \<Rightarrow> Inl e
      | Inr media \<Rightarrow>
          (case py_index media 0 of
             Inl e \<Rightarrow> Inl e
           | Inr m \<Rightarrow>
               (case py_get m ''media_url'' JNull of
                  Inl e \<Rightarrow> Inl e
                | Inr media_url \<Rightarrow>
                    if truthy media_url then
                      (case dict_get object ''attachments'' JNull of
                         JList atts \<Rightarrow>
                           Inr (AList.update ''attachments''
                                  (JList (atts @ [JObj [(''objectType'', JStr ''image''),
                                                        (''image'', JObj [(''url'', media_url)])]]))
                                  (AList.update ''image'' (JObj [(''url'', media_url)]) object))
                       | _ \<Rightarrow> Inl AttributeError)
                    else Inr object)))"

text \<open>The three kinds of tag, one per entity.\<close>

definition mention_tag :: "runtime \<Rightarrow> json \<Rightarrow> error + json" where
  "mention_tag rt t =
     (case t of
        JObj kvs \<Rightarrow>
          Inr (JObj [(''objectType'', JStr ''person''),
                     (''id'', JStr (tag_uri rt (dict_get kvs ''screen_name'' JNull))),
                     (''url'', JStr (user_url rt (dict_get kvs ''screen_name'' JNull))),
                     (''displayName'', dict_get kvs ''name'' JNull),
                     (''indices'', dict_get kvs ''indices'' JNull)])
      | _ \<Rightarrow> Inl AttributeError)"

text \<open>\<^verbatim>\<open>'https://twitter.com/search?q=%23' + t.get('text')\<close>: \<^verbatim>\<open>+\<close> needs a string.\<close>

definition hashtag_tag :: "json \<Rightarrow> error + json" where
  "hashtag_tag t =
     (case t of
        JObj kvs \<Rightarrow>
          (case dict_get kvs ''text'' JNull of
             JStr text \<Rightarrow>
               Inr (JObj [(''objectType'', JStr ''hashtag''),
                          (''url'', JStr (''https://twitter.com/search?q=%23'' @ text)),
                          (''indices'', dict_get kvs ''indices'' JNull)])
           | _ \<Rightarrow> Inl TypeError)
      | _ \<Rightarrow> Inl AttributeError)"

definition url_tag :: "json \<Rightarrow> error + json" where
  "url_tag t =
     (case t of
        JObj kvs \<Rightarrow>
          Inr (JObj [(''objectType'', JStr ''article''),
                     (''url'', dict_get kvs ''expanded_url'' JNull),
                     (''indices'', dict_get kvs ''indices'' JNull)])
      | _ \<Rightarrow> Inl AttributeError)"

text \<open>One comprehension: \<^verbatim>\<open>[f(t) for t in entities.get(key, [])]\<close>.\<close>

definition tags_of :: "(json \<Rightarrow> error + json) \<Rightarrow> json \<Rightarrow> string \<Rightarrow> error + json list" where
  "tags_of f entities key =
     (case py_get entities key (JList []) of
        Inl e \<Rightarrow> Inl e
      | Inr es \<Rightarrow> (case py_iter es of Inl e \<Rightarrow> Inl e | Inr ts \<Rightarrow> map_err f ts))"

text \<open>The mentions, then the hashtags, then the links.\<close>

definition entity_tags :: "runtime \<Rightarrow> json \<Rightarrow> error + json list" where
  "entity_tags rt entities =
     (case tags_of (mention_tag rt) entities ''user_mentions'' of
        Inl e \<Rightarrow> Inl e
      | Inr ms \<Rightarrow>
          (case tags_of hashtag_tag entities ''hashtags'' of
             Inl e \<Rightarrow> Inl e
           | Inr hs \<Rightarrow>
               (case tags_of url_tag entities ''urls'' of
                  Inl e \<Rightarrow> Inl e
                | Inr us \<Rightarrow> Inr (ms @ hs @ us))))"

text \<open>
  The body of the loop over the tags:
  \<^verbatim>\<open>indices = t.get('indices')\<close>, and when it is true,
  \<^verbatim>\<open>t.update({'startIndex': indices[0], 'length': indices[1] - indices[0]})\<close> and
  \<^verbatim>\<open>del t['indices']\<close>.
\<close>

definition rewrite_span :: "runtime \<Rightarrow> json \<Rightarrow> error + json" where
  "rewrite_span rt t =
     (case t of
        JObj kvs \<Rightarrow>
          (let indices = dict_get kvs ''indices'' JNull in
           if truthy indices then
             (case py_index indices 0 of
                Inl e \<Rightarrow> Inl e
              | Inr s \<Rightarrow>
                  (case py_index indices 1 of
                     Inl e \<Rightarrow> Inl e
                   | Inr e1 \<Rightarrow>
                       (case py_sub rt e1 s of
                          Inl e \<Rightarrow> Inl e
                        | Inr len \<Rightarrow>
                            Inr (JObj (AList.delete ''indices''
                                   (dict_update kvs [(''startIndex'', s), (''length'', len)]))))))
           else Inr t)
      | _ \<Rightarrow> Inl AttributeError)"

text \<open>
  \<^verbatim>\<open>place = tweet.get('place'); if place: object['location'] = {...}\<close>, with the map link
  when \<^verbatim>\<open>geo\<close> has coordinates: \<^verbatim>\<open>'https://maps.google.com/maps?q=%s,%s' % tuple(coords)\<close>
  needs exactly two of them.
\<close>

definition add_location :: "runtime \<Rightarrow> (string \<times> json) list \<Rightarrow> (string \<times> json) list
    \<Rightarrow> error + (string \<times> json) list" where
  "add_location rt tweet object =
     (let place = dict_get tweet ''place'' JNull in
      if truthy place then
        (case place of
           JObj pkvs \<Rightarrow>
             (let location = [(''displayName'', dict_get pkvs ''full_name'' JNull),
                              (''id'', dict_get pkvs ''id'' JNull)];
                  geo = dict_get tweet ''geo'' JNull in
              if truthy geo then
                (case py_get geo ''coordinates'' JNull of
                   Inl e \<Rightarrow> Inl e
                 | Inr coords \<Rightarrow>
                     if truthy coords then
                       (case py_iter coords of
                          Inl e \<Rightarrow> Inl e
                        | Inr [lat, lon] \<Rightarrow>
                            Inr (AList.update ''location''
                                   (JObj (AList.update ''url''
                                      (JStr (''https://maps.google.com/maps?q='' @ py_str rt lat
                                             @ '','' @ py_str rt lon))
                                      location))
                                   object)
                        | Inr _ \<Rightarrow> Inl TypeError)
                     else Inr (AList.update ''location'' (JObj location) object))
              else Inr (AList.update ''location'' (JObj location) object))
         | _ \<Rightarrow> Inl AttributeError)
      else Inr object)"

text \<open>
  Everything \<^verbatim>\<open>tweet_to_object\<close> does between the test of the id and the retweets:
  the initial dictionary, the author, the media, the tags and the loop over them.
\<close>

definition object_head :: "runtime \<Rightarrow> (string \<times> json) list \<Rightarrow> json \<Rightarrow> error + (string \<times> json) list" where
  "object_head rt tweet sid =
     (case rfc2822_to_iso8601 (dict_get tweet ''created_at'' JNull) of
        Inl e \<Rightarrow> Inl e
      | Inr published \<Rightarrow>
          (case add_author rt tweet sid
                  [(''objectType'', JStr ''note''),
                   (''published'', published),
                   (''content'', dict_get tweet ''text'' JNull),
                   (''attachments'', JList [])] of
             Inl e \<Rightarrow> Inl e
           | Inr object1 \<Rightarrow>
               (let entities = dict_get tweet ''entities'' (JObj []) in
                case add_media entities object1 of
                  Inl e \<Rightarrow> Inl e
                | Inr object2 \<Rightarrow>
                    (case entity_tags rt entities of
                       Inl e \<Rightarrow> Inl e
                     | Inr tags \<Rightarrow>
                         (case map_err (rewrite_span rt) tags of
                            Inl e \<Rightarrow> Inl e
                          | Inr tags' \<Rightarrow>
                              Inr (AList.update ''tags'' (JList tags') object2))))))"

text \<open>\<^verbatim>\<open>object['tags'] += shares\<close>, the location, and the final \<^verbatim>\<open>util.trim_nulls\<close>.\<close>

definition object_tail :: "runtime \<Rightarrow> (string \<times> json) list \<Rightarrow> (string \<times> json) list \<Rightarrow> json list
    \<Rightarrow> error + json" where
  "object_tail rt tweet object shares =
     (case dict_get object ''tags'' JNull of
        JList tags \<Rightarrow>
          (case add_location rt tweet (AList.update ''tags'' (JList (tags @ shares)) object) of
             Inl e \<Rightarrow> Inl e
           | Inr object' \<Rightarrow> Inr (trim_nulls (JObj object')))
      | _ \<Rightarrow> Inl TypeError)"

lemma map_err_cong [fundef_cong]:
  "xs = ys \<Longrightarrow> (\<And>x. x \<in> set ys \<Longrightarrow> f x = g x) \<Longrightarrow> map_err f xs = map_err g ys"
  by (induction ys arbitrary: xs) (auto split: sum.splits)

lemma size_map_of:
  "map_of kvs k = Some v \<Longrightarrow> size v \<le> size_list (size_prod (\<lambda>_. 0) size) kvs"
  by (induction kvs) (auto split: if_splits)

lemma size_py_iter:
  "py_iter v = Inr xs \<Longrightarrow> x \<in> set xs \<Longrightarrow> size x \<le> size v"
proof (cases v)
  case (JList ys)
  assume "py_iter v = Inr xs" "x \<in> set xs"
  with JList have "x \<in> set ys" by simp
  then have "size x \<le> size_list size ys" by (induction ys) auto
  with JList show ?thesis by simp
qed auto

lemma size_retweets:
  assumes "py_iter (dict_get kvs k (JList [])) = Inr rs" and "r \<in> set rs"
  shows "size r \<le> size_list (size_prod (\<lambda>_. 0) size) kvs"
proof (cases "map_of kvs k")
  case None
  with assms show ?thesis by (simp add: dict_get_def)
next
  case (Some v)
  with assms have "size r \<le> size v" by (auto simp: dict_get_def intro: size_py_iter)
  with Some show ?thesis using size_map_of [of kvs k v] by simp
qed

function tweet_to_object :: "runtime \<Rightarrow> json \<Rightarrow> error + json"
  and retweet_to_object :: "runtime \<Rightarrow> json \<Rightarrow> error + json" where
  "tweet_to_object rt tweet =
     (case tweet of
        JObj kvs \<Rightarrow>
          (let sid = dict_get kvs ''id_str'' JNull in
           if \<not> truthy sid then Inr (JObj [])
           else
             (case object_head rt kvs sid of
                Inl e \<Rightarrow> Inl e
              | Inr object \<Rightarrow>
                  (case py_iter (dict_get kvs ''retweets'' (JList [])) of
                     Inl e \<Rightarrow> Inl e
                   | Inr rs \<Rightarrow>
                       (case map_err (retweet_to_object rt) rs of
                          Inl e \<Rightarrow> Inl e
                        | Inr shares \<Rightarrow> object_tail rt kvs object shares))))
      | _ \<Rightarrow> Inl AttributeError)"
| "retweet_to_object rt retweet =
     (case retweet of
        JObj kvs \<Rightarrow>
          (let orig = dict_get kvs ''retweeted_status'' JNull in
           if \<not> truthy orig then Inr JNull
           else
             (case tweet_to_object rt retweet of
                Inl e \<Rightarrow> Inl e
              | Inr share \<Rightarrow>
                  (case py_get orig ''user'' (JObj []) of
                     Inl e \<Rightarrow> Inl e
                   | Inr orig_user \<Rightarrow>
                       (case py_get orig_user ''screen_name'' JNull of
                          Inl e \<Rightarrow> Inl e
                        | Inr screen_name \<Rightarrow>
                            (case (share, py_get orig ''id_str'' JNull) of
                               (JObj skvs, Inr orig_id) \<Rightarrow>
                                 Inr (JObj (dict_update skvs
                                   [(''objectType'', JStr ''activity''),
                                    (''verb'', JStr ''share''),
                                    (''object'',
                                       JObj [(''url'', JStr (status_url rt screen_name orig_id))]),
                                    (''content'', JStr ''retweeted this.'')]))
                             | _ \<Rightarrow> Inl AttributeError)))))
      | _ \<Rightarrow> Inl AttributeError)"
  by pat_completeness auto
termination
proof (relation "measure (\<lambda>x. case x of Inl (rt, t) \<Rightarrow> 2 * size t | Inr (rt, r) \<Rightarrow> 2 * size r + 1)",
    goal_cases)
  case 1
  show ?case by simp
next
  case (2 rt tweet kvs sid object rs r)
  then show ?case using size_retweets [of kvs "''retweets''" rs r] by simp
next
  case 3
  then show ?case by simp
qed

declare tweet_to_object.simps [simp del] retweet_to_object.simps [simp del]

subsection \<open>\<^verbatim>\<open>tweet_to_activity\<close>\<close>

text \<open>
  The pattern \<^verbatim>\<open><a href="([^"]+)".*>(.+)</a>\<close> at the start of the input: the ways it
  matches, each with its two groups and the rest of the input. The dot matches any character
  but a line feed.
\<close>

definition not_quote :: "char \<Rightarrow> bool" where
  "not_quote c = (c \<noteq> CHR 0x22)"

definition not_newline :: "char \<Rightarrow> bool" where
  "not_newline c = (c \<noteq> CHR 0x0A)"

definition anchor_match :: "string \<Rightarrow> ((string \<times> string) \<times> string) list" where
  "anchor_match s0 =
     List.bind (rx_lit (''<a href='' @ [CHR 0x22]) s0) (\<lambda>s1.
     List.bind (rx_many not_quote 1 s1) (\<lambda>(url, s2).
     List.bind (rx_lit [CHR 0x22] s2) (\<lambda>s3.
     List.bind (rx_many not_newline 0 s3) (\<lambda>(skipped, s4).
     List.bind (rx_lit ''>'' s4) (\<lambda>s5.
     List.bind (rx_many not_newline 1 s5) (\<lambda>(name, s6).
     List.bind (rx_lit ''</a>'' s6) (\<lambda>s7.
       [((url, name), s7)])))))))"

text \<open>\<^verbatim>\<open>re.search(pattern, text)\<close> and \<^verbatim>\<open>parsed.groups()\<close>; a text that is not a
  string is a \<^verbatim>\<open>TypeError\<close>.\<close>

definition search_anchor :: "json \<Rightarrow> error + (string \<times> string) option" where
  "search_anchor text =
     (case text of
        JStr s \<Rightarrow> Inr (map_option fst (re_search anchor_match s))
      | _ \<Rightarrow> Inl TypeError)"

text \<open>The dictionary \<^verbatim>\<open>tweet_to_activity\<close> has built when it calls
  \<^verbatim>\<open>postprocess_activity\<close>.\<close>

definition raw_activity :: "runtime \<Rightarrow> (string \<times> json) list \<Rightarrow> (string \<times> json) list
    \<Rightarrow> error + (string \<times> json) list" where
  "raw_activity rt tweet object =
     (let activity = [(''verb'', JStr ''post''),
                      (''published'', dict_get object ''published'' JNull),
                      (''id'', dict_get object ''id'' JNull),
                      (''url'', dict_get object ''url'' JNull),
                      (''actor'', dict_get object ''author'' JNull),
                      (''object'', JObj object)];
          reply_to_screenname = dict_get tweet ''in_reply_to_screen_name'' JNull;
          reply_to_id = dict_get tweet ''in_reply_to_status_id'' JNull;
          activity1 =
            (if truthy reply_to_id \<and> truthy reply_to_screenname
             then AList.update ''context''
                    (JObj [(''inReplyTo'', JList [JObj
                       [(''objectType'', JStr ''note''),
                        (''id'', JStr (tag_uri rt reply_to_id)),
                        (''url'', JStr (status_url rt reply_to_screenname reply_to_id))]])])
                    activity
             else activity)
      in case search_anchor (dict_get tweet ''source'' (JStr [])) of
           Inl e \<Rightarrow> Inl e
         | Inr None \<Rightarrow> Inr activity1
         | Inr (Some (url, name)) \<Rightarrow>
             Inr (AList.update ''generator''
                    (JObj [(''displayName'', JStr name), (''url'', JStr url)]) activity1))"

definition tweet_to_activity :: "runtime \<Rightarrow> json \<Rightarrow> error + json" where
  "tweet_to_activity rt tweet =
     (case tweet_to_object rt tweet of
        Inl e \<Rightarrow> Inl e
      | Inr object \<Rightarrow>
          (case (object, tweet) of
             (JObj okvs, JObj kvs) \<Rightarrow>
               (case raw_activity rt kvs okvs of
                  Inl e \<Rightarrow> Inl e
                | Inr activity \<Rightarrow> postprocess_activity rt (JObj activity))
           | _ \<Rightarrow> Inl AttributeError))"

text \<open>
  A runtime to evaluate examples with. Its \<open>postprocess_activity\<close> is the stripping of null
  and empty values, which the spec has as the final step of every conversion.
\<close>

definition example_runtime :: runtime where
  "example_runtime =
     \<lparr>tag_uri = (\<lambda>v. ''tag:twitter.com:'' @ (case v of JStr s \<Rightarrow> s | JInt i \<Rightarrow> str_int i
                                                   | _ \<Rightarrow> ''None'')),
      postprocess_activity = (\<lambda>a. Inr (trim_nulls a)),
      repr = (\<lambda>v. ''[...]''),
      float_sub = (\<lambda>a b. ''nan'')\<rparr>"

text \<open>Records to evaluate examples on: a user, a retweet of the status 42 of \<^verbatim>\<open>alice\<close>, and
  a reply of \<^verbatim>\<open>alice\<close> with a hashtag, a mention, a place, that retweet, several null fields
  and a client link.\<close>

definition example_user :: json where
  "example_user =
     JObj [(''screen_name'', JStr ''alice''), (''name'', JStr ''Alice''), (''location'', JNull),
           (''description'', JStr []),
           (''created_at'', JStr ''Wed May 23 06:01:13 +0000 2007'')]"

definition example_retweet :: json where
  "example_retweet =
     JObj [(''id_str'', JStr ''43''),
           (''user'', JObj [(''screen_name'', JStr ''bob'')]),
           (''retweeted_status'',
              JObj [(''id_str'', JStr ''42''), (''user'', JObj [(''screen_name'', JStr ''alice'')])])]"

definition example_fields :: "(string \<times> json) list" where
  "example_fields =
          [(''id_str'', JStr ''42''),
           (''text'', JStr ''hi @bob #x''),
           (''created_at'', JNull),
           (''user'', example_user),
           (''in_reply_to_status_id'', JInt 7),
           (''in_reply_to_screen_name'', JStr ''bob''),
           (''source'', JStr (''<a href='' @ [CHR 0x22] @ ''http://x.io/app'' @ [CHR 0x22]
                              @ ''>MyApp</a>'')),
           (''entities'',
              JObj [(''user_mentions'',
                       JList [JObj [(''screen_name'', JStr ''bob''), (''name'', JNull),
                                    (''indices'', JList [JInt 3, JInt 7])]]),
                    (''hashtags'',
                       JList [JObj [(''text'', JStr ''x''), (''indices'', JList [JInt 8, JInt 10])]]),
                    (''urls'', JList [])]),
           (''place'', JObj [(''full_name'', JStr ''SF''), (''id'', JNull)]),
           (''geo'', JNull),
           (''retweets'', JList [example_retweet])]"

definition example_tweet :: json where
  "example_tweet = JObj example_fields"

section \<open>Properties\<close>

text \<open>The value a dictionary has at a key, if any.\<close>

fun field :: "json \<Rightarrow> string \<Rightarrow> json option" where
  "field (JObj kvs) k = map_of kvs k"
| "field _ k = None"

fun is_string :: "json \<Rightarrow> bool" where
  "is_string (JStr s) = True"
| "is_string _ = False"

lemma map_of_absent: "k \<notin> fst ` set kvs \<Longrightarrow> map_of kvs k = None"
  by (simp add: map_of_eq_None_iff)

subsection \<open>A record without an id\<close>

lemma tweet_to_object_no_id:
  "\<not> truthy (dict_get kvs ''id_str'' JNull) \<Longrightarrow> tweet_to_object rt (JObj kvs) = Inr (JObj [])"
  by (simp add: tweet_to_object.simps)






subsection \<open>Timestamps\<close>

lemma strip_example:
  assumes "sg = CHR ''+'' \<or> sg = CHR ''-''" "is_digit d1" "is_digit d2" "is_digit d3" "is_digit d4"
  shows "strip_utc_offset (''Wed May 23 06:01:13 '' @ [sg, d1, d2, d3, d4] @ '' 2007'') = ''Wed May 23 06:01:13 2007''"
  using assms by simp

lemma strptime_example:
  "strptime ''Wed May 23 06:01:13 2007'' = Inr \<lparr>year = 2007, month = 5, day = 23, hour = 6, minute = 1, second = 13\<rparr>"
  by code_simp

lemma iso_example: "isoformat \<lparr>year = 2007, month = 5, day = 23, hour = 6, minute = 1, second = 13\<rparr> = ''2007-05-23T06:01:13''"
  by code_simp

lemma rfc2822_to_iso8601_string:
  "s \<noteq> [] \<Longrightarrow> strip_utc_offset s = s' \<Longrightarrow> strptime s' = Inr dt \<Longrightarrow> isoformat dt = r
   \<Longrightarrow> rfc2822_to_iso8601 (JStr s) = Inr (JStr r)"
  by (simp add: rfc2822_to_iso8601_def)

text \<open>
  C3. \<^verbatim>\<open>rfc2822_to_iso8601\<close> maps an absent input (\<^verbatim>\<open>None\<close> or the empty string) to
  \<^verbatim>\<open>None\<close>, and \<^verbatim>\<open>Wed May 23 06:01:13 +0000 2007\<close> to \<^verbatim>\<open>2007-05-23T06:01:13\<close>. The offset
  is stripped and discarded: whatever sign and four digits stand in its place, the stripped
  text and the result are the same, with the hour and the minute as they were written.
\<close>

theorem timestamp_conversion:
  "rfc2822_to_iso8601 JNull = Inr JNull \<and> rfc2822_to_iso8601 (JStr []) = Inr JNull \<and>
   rfc2822_to_iso8601 (JStr ''Wed May 23 06:01:13 +0000 2007'') = Inr (JStr ''2007-05-23T06:01:13'') \<and>
   (\<forall>sg d1 d2 d3 d4. (sg = CHR ''+'' \<or> sg = CHR ''-'') \<and> is_digit d1 \<and> is_digit d2 \<and> is_digit d3 \<and> is_digit d4 \<longrightarrow>
      strip_utc_offset (''Wed May 23 06:01:13 '' @ [sg, d1, d2, d3, d4] @ '' 2007'') = ''Wed May 23 06:01:13 2007'' \<and>
      rfc2822_to_iso8601 (JStr (''Wed May 23 06:01:13 '' @ [sg, d1, d2, d3, d4] @ '' 2007''))
        = Inr (JStr ''2007-05-23T06:01:13''))"
proof (intro conjI allI impI)
  show "rfc2822_to_iso8601 JNull = Inr JNull" "rfc2822_to_iso8601 (JStr []) = Inr JNull"
    by (simp_all add: rfc2822_to_iso8601_def)
  have plus: "CHR ''+'' = CHR ''+'' \<or> CHR ''+'' = CHR ''-''" and zero: "is_digit CHR ''0''"
    by (simp_all add: is_digit_def)
  show "rfc2822_to_iso8601 (JStr ''Wed May 23 06:01:13 +0000 2007'') = Inr (JStr ''2007-05-23T06:01:13'')"
    using rfc2822_to_iso8601_string
      [OF _ strip_example [OF plus zero zero zero zero] strptime_example iso_example]
    by simp
next
  fix sg d1 d2 d3 d4
  assume h: "(sg = CHR ''+'' \<or> sg = CHR ''-'') \<and> is_digit d1 \<and> is_digit d2 \<and> is_digit d3
    \<and> is_digit d4"
  then show st: "strip_utc_offset (''Wed May 23 06:01:13 '' @ [sg, d1, d2, d3, d4] @ '' 2007'')
      = ''Wed May 23 06:01:13 2007''"
    by (intro strip_example) simp_all
  show "rfc2822_to_iso8601 (JStr (''Wed May 23 06:01:13 '' @ [sg, d1, d2, d3, d4] @ '' 2007''))
      = Inr (JStr ''2007-05-23T06:01:13'')"
    by (rule rfc2822_to_iso8601_string [OF _ st strptime_example iso_example]) simp
qed

theorem timestamp_conversion_witness:
  "rfc2822_to_iso8601 (JStr ''Wed May 23 06:01:13 -0700 2007'') = Inr (JStr ''2007-05-23T06:01:13'')"
  using timestamp_conversion by (simp add: is_digit_def)

lemma tweet_to_object_bad_timestamp:
  "truthy (dict_get kvs ''id_str'' JNull) \<Longrightarrow>
   rfc2822_to_iso8601 (dict_get kvs ''created_at'' JNull) = Inl e \<Longrightarrow>
   tweet_to_object rt (JObj kvs) = Inl e"
  by (simp add: tweet_to_object.simps object_head_def)

lemma yesterday_no_match: "strptime_match (strip_utc_offset ''yesterday'') = []"
  by code_simp

text \<open>
  C9. There is a timestamp that is not empty and that, with the offset stripped, does not
  match the layout of \<^verbatim>\<open>strptime\<close>: \<^verbatim>\<open>rfc2822_to_iso8601\<close> raises a \<^verbatim>\<open>ValueError\<close> for it,
  and so does \<^verbatim>\<open>tweet_to_object\<close> for every tweet that has an id and this timestamp as
  \<^verbatim>\<open>created_at\<close>; no object without \<^verbatim>\<open>published\<close> is returned.
\<close>

theorem unparsable_timestamp_raises:
  "\<exists>s. s \<noteq> [] \<and> strptime_match (strip_utc_offset s) = [] \<and>
     rfc2822_to_iso8601 (JStr s) = Inl ValueError \<and>
     (\<forall>rt kvs. truthy (dict_get kvs ''id_str'' JNull) \<and> dict_get kvs ''created_at'' JNull = JStr s
        \<longrightarrow> tweet_to_object rt (JObj kvs) = Inl ValueError)"
proof (intro exI [of _ "''yesterday''"] conjI allI impI)
  show "''yesterday'' \<noteq> []" by simp
  show "strptime_match (strip_utc_offset ''yesterday'') = []" by (rule yesterday_no_match)
  show raises: "rfc2822_to_iso8601 (JStr ''yesterday'') = Inl ValueError"
    using yesterday_no_match by (simp add: rfc2822_to_iso8601_def strptime_def)
  fix rt kvs
  assume "truthy (dict_get kvs ''id_str'' JNull) \<and> dict_get kvs ''created_at'' JNull = JStr ''yesterday''"
  then show "tweet_to_object rt (JObj kvs) = Inl ValueError"
    using raises by (intro tweet_to_object_bad_timestamp) simp_all
qed

theorem unparsable_timestamp_raises_witness:
  "\<exists>s. s \<noteq> [] \<and> rfc2822_to_iso8601 (JStr s) = Inl ValueError \<and>
     tweet_to_object example_runtime (JObj [(''id_str'', JStr ''1''), (''created_at'', JStr s)])
       = Inl ValueError"
proof -
  from unparsable_timestamp_raises obtain s where
    s: "s \<noteq> []" "rfc2822_to_iso8601 (JStr s) = Inl ValueError"
    and all: "\<And>rt kvs. truthy (dict_get kvs ''id_str'' JNull) \<and> dict_get kvs ''created_at'' JNull = JStr s
        \<Longrightarrow> tweet_to_object rt (JObj kvs) = Inl ValueError"
    by auto
  have "tweet_to_object example_runtime (JObj [(''id_str'', JStr ''1''), (''created_at'', JStr s)])
       = Inl ValueError"
    by (rule all) (simp add: dict_get_def)
  with s show ?thesis by (intro exI [of _ s]) simp
qed

subsection \<open>Facts about dictionaries and trimming\<close>

lemma no_nulls_trim_nulls: "no_nulls (trim_nulls v)"
  by (induction v) (auto simp: list_all_iff)

lemma map_of_trimmed:
  assumes "distinct (map fst kvs)"
  shows "map_of (filter (\<lambda>(k, v). \<not> is_null v) (map (\<lambda>(k, v). (k, trim_nulls v)) kvs)) k =
    (case map_of kvs k of
       None \<Rightarrow> None
     | Some v \<Rightarrow> if is_null (trim_nulls v) then None else Some (trim_nulls v))"
  using assms
proof (induction kvs)
  case Nil
  show ?case by simp
next
  case (Cons kv kvs)
  obtain k' v' where kv: "kv = (k', v')" by (cases kv)
  from Cons.prems kv have notin: "k' \<notin> fst ` set kvs" and d: "distinct (map fst kvs)" by auto
  have absent: "map_of kvs k' = None" using notin by (rule map_of_absent)
  show ?case using Cons.IH [OF d] absent by (auto simp: kv)
qed

lemma field_trim_nulls:
  "distinct (map fst kvs) \<Longrightarrow>
   field (trim_nulls (JObj kvs)) k =
     (case map_of kvs k of
        None \<Rightarrow> None
      | Some v \<Rightarrow> if is_null (trim_nulls v) then None else Some (trim_nulls v))"
  by (simp add: map_of_trimmed)

lemma distinct_update: "distinct (map fst al) \<Longrightarrow> distinct (map fst (AList.update k v al))"
  by (simp add: AList.distinct_update)

lemma map_of_update: "map_of (AList.update k v al) k' = (if k' = k then Some v else map_of al k')"
  by (simp add: AList.update_conv')

subsection \<open>Actors\<close>

declare trim_nulls.simps(1,2) [simp del]

lemma user_to_actor_no_name:
  "\<not> truthy (dict_get kvs ''screen_name'' JNull) \<Longrightarrow> user_to_actor rt (JObj kvs) = Inr (JObj [])"
  by (simp add: user_to_actor_def)

lemma user_to_actor_result:
  assumes "truthy (dict_get kvs ''screen_name'' JNull)"
    and "user_to_actor rt (JObj kvs) = Inr a"
  shows "\<exists>published. rfc2822_to_iso8601 (dict_get kvs ''created_at'' JNull) = Inr published \<and>
    a = trim_nulls (JObj
          [(''displayName'', dict_get kvs ''name'' JNull),
           (''image'', JObj [(''url'', dict_get kvs ''profile_image_url'' JNull)]),
           (''id'', JStr (tag_uri rt (dict_get kvs ''screen_name'' JNull))),
           (''published'', published),
           (''url'', JStr (user_url rt (dict_get kvs ''screen_name'' JNull))),
           (''location'', JObj [(''displayName'', dict_get kvs ''location'' JNull)]),
           (''username'', dict_get kvs ''screen_name'' JNull),
           (''description'', dict_get kvs ''description'' JNull)])"
  using assms by (auto simp: user_to_actor_def Let_def split: sum.splits)

lemma user_to_actor_url:
  assumes "truthy (dict_get kvs ''screen_name'' JNull)"
    and "user_to_actor rt (JObj kvs) = Inr a"
  shows "field a ''url'' =
    Some (JStr (''http://twitter.com/'' @ py_str rt (dict_get kvs ''screen_name'' JNull)))"
proof -
  from user_to_actor_result [OF assms] obtain published where
    a: "a = trim_nulls (JObj
          [(''displayName'', dict_get kvs ''name'' JNull),
           (''image'', JObj [(''url'', dict_get kvs ''profile_image_url'' JNull)]),
           (''id'', JStr (tag_uri rt (dict_get kvs ''screen_name'' JNull))),
           (''published'', published),
           (''url'', JStr (user_url rt (dict_get kvs ''screen_name'' JNull))),
           (''location'', JObj [(''displayName'', dict_get kvs ''location'' JNull)]),
           (''username'', dict_get kvs ''screen_name'' JNull),
           (''description'', dict_get kvs ''description'' JNull)])"
    by blast
  show ?thesis
    unfolding a by (subst field_trim_nulls) (simp_all add: user_url_def DOMAIN_def)
qed

lemma user_to_actor_returns:
  assumes "truthy (dict_get kvs ''screen_name'' JNull)"
    and "\<not> truthy (dict_get kvs ''created_at'' JNull)"
  shows "\<exists>a. user_to_actor rt (JObj kvs) = Inr a"
  using assms by (simp add: user_to_actor_def rfc2822_to_iso8601_def Let_def)

text \<open>
  C8, as the code has it. For every user mapping whose screen name is missing or false, the
  empty mapping among them, \<^verbatim>\<open>user_to_actor\<close> returns the empty mapping and raises nothing.
  An absent user, \<^verbatim>\<open>None\<close>, is not such an input: \<^verbatim>\<open>user_to_actor\<close> raises an
  \<^verbatim>\<open>AttributeError\<close> for it. For a user with a screen name, every result has the url
  \<^verbatim>\<open>http://twitter.com/<username>\<close>, and there is a result whenever \<^verbatim>\<open>created_at\<close> is
  missing or false.
\<close>

theorem user_to_actor_cases:
  "(\<not> truthy (dict_get kvs ''screen_name'' JNull) \<longrightarrow> user_to_actor rt (JObj kvs) = Inr (JObj []))
   \<and> user_to_actor rt (JObj []) = Inr (JObj [])
   \<and> user_to_actor rt JNull = Inl AttributeError
   \<and> (\<forall>a. truthy (dict_get kvs ''screen_name'' JNull) \<and> user_to_actor rt (JObj kvs) = Inr a \<longrightarrow>
         field a ''url'' =
           Some (JStr (''http://twitter.com/'' @ py_str rt (dict_get kvs ''screen_name'' JNull))))
   \<and> (\<forall>u a. dict_get kvs ''screen_name'' JNull = JStr u \<and> u \<noteq> [] \<and>
         user_to_actor rt (JObj kvs) = Inr a \<longrightarrow>
         field a ''url'' = Some (JStr (''http://twitter.com/'' @ u)))
   \<and> (truthy (dict_get kvs ''screen_name'' JNull) \<and> \<not> truthy (dict_get kvs ''created_at'' JNull)
        \<longrightarrow> (\<exists>a. user_to_actor rt (JObj kvs) = Inr a))"
proof (intro conjI allI impI)
  show "user_to_actor rt (JObj kvs) = Inr (JObj [])"
    if "\<not> truthy (dict_get kvs ''screen_name'' JNull)"
    using that by (rule user_to_actor_no_name)
  show "user_to_actor rt (JObj []) = Inr (JObj [])"
    by (simp add: user_to_actor_def dict_get_def)
  show "user_to_actor rt JNull = Inl AttributeError"
    by (simp add: user_to_actor_def)
  show "field a ''url'' =
      Some (JStr (''http://twitter.com/'' @ py_str rt (dict_get kvs ''screen_name'' JNull)))"
    if "truthy (dict_get kvs ''screen_name'' JNull) \<and> user_to_actor rt (JObj kvs) = Inr a" for a
    using that by (intro user_to_actor_url) simp_all
  show "field a ''url'' = Some (JStr (''http://twitter.com/'' @ u))"
    if h: "dict_get kvs ''screen_name'' JNull = JStr u \<and> u \<noteq> [] \<and>
      user_to_actor rt (JObj kvs) = Inr a" for u a
  proof -
    from h have "truthy (dict_get kvs ''screen_name'' JNull)" by simp
    from user_to_actor_url [OF this, of rt a] h show ?thesis by simp
  qed
  show "\<exists>a. user_to_actor rt (JObj kvs) = Inr a"
    if "truthy (dict_get kvs ''screen_name'' JNull) \<and> \<not> truthy (dict_get kvs ''created_at'' JNull)"
    using that by (intro user_to_actor_returns) simp_all
qed

theorem user_to_actor_cases_witness:
  "user_to_actor example_runtime (JObj [(''name'', JStr ''Alice'')]) = Inr (JObj []) \<and>
   (\<exists>a. user_to_actor example_runtime (JObj [(''screen_name'', JStr ''alice'')]) = Inr a \<and>
        field a ''url'' = Some (JStr ''http://twitter.com/alice''))"
proof -
  have "user_to_actor example_runtime (JObj [(''name'', JStr ''Alice'')]) = Inr (JObj [])"
    using user_to_actor_cases [of "[(''name'', JStr ''Alice'')]" example_runtime]
    by (simp add: dict_get_def)
  moreover have "\<exists>a. user_to_actor example_runtime (JObj [(''screen_name'', JStr ''alice'')]) = Inr a \<and>
        field a ''url'' = Some (JStr ''http://twitter.com/alice'')"
    using user_to_actor_cases [of "[(''screen_name'', JStr ''alice'')]" example_runtime]
    by (auto simp: dict_get_def)
  ultimately show ?thesis by simp
qed

text \<open>The absent user: \<^verbatim>\<open>None\<close> has no \<^verbatim>\<open>get\<close>.\<close>

theorem user_to_actor_absent_counterexample:
  "user_to_actor example_runtime JNull \<noteq> Inr (JObj []) \<and>
   user_to_actor example_runtime JNull = Inl AttributeError"
  by (simp add: user_to_actor_def)

subsection \<open>Retweets\<close>

lemma dict_update_four:
  "dict_update d [(k1, v1), (k2, v2), (k3, v3), (k4, v4)] =
     AList.update k4 v4 (AList.update k3 v3 (AList.update k2 v2 (AList.update k1 v1 d)))"
  by (simp add: dict_update_def)

lemma retweet_to_object_absent:
  "\<not> truthy (dict_get kvs ''retweeted_status'' JNull) \<Longrightarrow>
   retweet_to_object rt (JObj kvs) = Inr JNull"
  by (simp add: retweet_to_object.simps)

text \<open>What a share is made of: the object of the retweet itself, with four keys set.\<close>

lemma retweet_to_object_result:
  assumes "truthy (dict_get kvs ''retweeted_status'' JNull)"
    and "retweet_to_object rt (JObj kvs) = Inr share"
  shows "\<exists>skvs orig_user screen_name orig_id.
      tweet_to_object rt (JObj kvs) = Inr (JObj skvs) \<and>
      py_get (dict_get kvs ''retweeted_status'' JNull) ''user'' (JObj []) = Inr orig_user \<and>
      py_get orig_user ''screen_name'' JNull = Inr screen_name \<and>
      py_get (dict_get kvs ''retweeted_status'' JNull) ''id_str'' JNull = Inr orig_id \<and>
      share = JObj (dict_update skvs
                [(''objectType'', JStr ''activity''),
                 (''verb'', JStr ''share''),
                 (''object'', JObj [(''url'', JStr (status_url rt screen_name orig_id))]),
                 (''content'', JStr ''retweeted this.'')])"
  using assms
  by (auto simp: retweet_to_object.simps Let_def split: sum.splits json.splits)

text \<open>
  C5. \<^verbatim>\<open>retweet_to_object\<close> returns \<^verbatim>\<open>None\<close> when the record has no \<^verbatim>\<open>retweeted_status\<close>
  (or a false one). Otherwise every result has the object type \<^verbatim>\<open>activity\<close>, the verb
  \<^verbatim>\<open>share\<close>, the content \<^verbatim>\<open>retweeted this.\<close>, and as \<^verbatim>\<open>object\<close> the mapping whose only key
  is the url \<^verbatim>\<open>http://twitter.com/<screen name>/status/<id>\<close> of the original's author and
  id.
\<close>

theorem retweet_to_object_share:
  "(\<not> truthy (dict_get kvs ''retweeted_status'' JNull) \<longrightarrow>
      retweet_to_object rt (JObj kvs) = Inr JNull) \<and>
   (\<forall>share. truthy (dict_get kvs ''retweeted_status'' JNull) \<and>
      retweet_to_object rt (JObj kvs) = Inr share \<longrightarrow>
      field share ''objectType'' = Some (JStr ''activity'') \<and>
      field share ''verb'' = Some (JStr ''share'') \<and>
      field share ''content'' = Some (JStr ''retweeted this.'') \<and>
      (\<exists>orig_user screen_name orig_id.
         py_get (dict_get kvs ''retweeted_status'' JNull) ''user'' (JObj []) = Inr orig_user \<and>
         py_get orig_user ''screen_name'' JNull = Inr screen_name \<and>
         py_get (dict_get kvs ''retweeted_status'' JNull) ''id_str'' JNull = Inr orig_id \<and>
         field share ''object'' =
           Some (JObj [(''url'', JStr (''http://twitter.com/'' @ py_str rt screen_name
                                        @ ''/status/'' @ py_str rt orig_id))])))"
proof (intro conjI allI impI)
  show "retweet_to_object rt (JObj kvs) = Inr JNull"
    if "\<not> truthy (dict_get kvs ''retweeted_status'' JNull)"
    using that by (rule retweet_to_object_absent)
next
  fix share
  assume h: "truthy (dict_get kvs ''retweeted_status'' JNull) \<and>
    retweet_to_object rt (JObj kvs) = Inr share"
  then have t: "truthy (dict_get kvs ''retweeted_status'' JNull)"
    and r: "retweet_to_object rt (JObj kvs) = Inr share" by simp_all
  from retweet_to_object_result [OF t r] obtain skvs orig_user screen_name orig_id where
    u: "py_get (dict_get kvs ''retweeted_status'' JNull) ''user'' (JObj []) = Inr orig_user"
    and sn: "py_get orig_user ''screen_name'' JNull = Inr screen_name"
    and oid: "py_get (dict_get kvs ''retweeted_status'' JNull) ''id_str'' JNull = Inr orig_id"
    and share: "share = JObj (dict_update skvs
                [(''objectType'', JStr ''activity''),
                 (''verb'', JStr ''share''),
                 (''object'', JObj [(''url'', JStr (status_url rt screen_name orig_id))]),
                 (''content'', JStr ''retweeted this.'')])"
    by blast
  show "field share ''objectType'' = Some (JStr ''activity'')"
    and "field share ''verb'' = Some (JStr ''share'')"
    and "field share ''content'' = Some (JStr ''retweeted this.'')"
    unfolding share dict_update_four by (simp_all add: map_of_update)
  have "field share ''object'' =
      Some (JObj [(''url'', JStr (''http://twitter.com/'' @ py_str rt screen_name
                                   @ ''/status/'' @ py_str rt orig_id))])"
    unfolding share dict_update_four
    by (simp add: map_of_update status_url_def user_url_def DOMAIN_def)
  with u sn oid show "\<exists>orig_user screen_name orig_id.
         py_get (dict_get kvs ''retweeted_status'' JNull) ''user'' (JObj []) = Inr orig_user \<and>
         py_get orig_user ''screen_name'' JNull = Inr screen_name \<and>
         py_get (dict_get kvs ''retweeted_status'' JNull) ''id_str'' JNull = Inr orig_id \<and>
         field share ''object'' =
           Some (JObj [(''url'', JStr (''http://twitter.com/'' @ py_str rt screen_name
                                        @ ''/status/'' @ py_str rt orig_id))])"
    by (intro exI conjI)
qed

text \<open>The retweet with the id 43 of the status 42 of \<^verbatim>\<open>alice\<close>, and a tweet that is no
  retweet.\<close>

lemma retweet_example:
  "retweet_to_object example_runtime
     (JObj [(''id_str'', JStr ''43''),
            (''retweeted_status'',
               JObj [(''id_str'', JStr ''42''), (''user'', JObj [(''screen_name'', JStr ''alice'')])])])
   = Inr (JObj [(''objectType'', JStr ''activity''),
                (''verb'', JStr ''share''),
                (''object'', JObj [(''url'', JStr ''http://twitter.com/alice/status/42'')]),
                (''content'', JStr ''retweeted this.'')])"
  by code_simp

theorem retweet_to_object_share_witness:
  "retweet_to_object example_runtime (JObj [(''id_str'', JStr ''43'')]) = Inr JNull \<and>
   (\<exists>share. retweet_to_object example_runtime
     (JObj [(''id_str'', JStr ''43''),
            (''retweeted_status'',
               JObj [(''id_str'', JStr ''42''), (''user'', JObj [(''screen_name'', JStr ''alice'')])])])
     = Inr share \<and>
     field share ''verb'' = Some (JStr ''share'') \<and>
     field share ''content'' = Some (JStr ''retweeted this.'') \<and>
     field share ''object'' = Some (JObj [(''url'', JStr ''http://twitter.com/alice/status/42'')]))"
proof -
  have "retweet_to_object example_runtime (JObj [(''id_str'', JStr ''43'')]) = Inr JNull"
    using retweet_to_object_share [of "[(''id_str'', JStr ''43'')]" example_runtime]
    by (simp add: dict_get_def)
  moreover have "field (JObj [(''objectType'', JStr ''activity''),
                (''verb'', JStr ''share''),
                (''object'', JObj [(''url'', JStr ''http://twitter.com/alice/status/42'')]),
                (''content'', JStr ''retweeted this.'')]) ''object''
      = Some (JObj [(''url'', JStr ''http://twitter.com/alice/status/42'')])"
    using retweet_to_object_share [of "[(''id_str'', JStr ''43''),
            (''retweeted_status'',
               JObj [(''id_str'', JStr ''42''), (''user'', JObj [(''screen_name'', JStr ''alice'')])])]"
          example_runtime]
    by (simp add: dict_get_def retweet_example)
  ultimately show ?thesis by (simp add: retweet_example)
qed

text \<open>
  C10, as the code has it. For every retweet record that has no \<^verbatim>\<open>id_str\<close> (or a false one)
  and whose \<^verbatim>\<open>retweeted_status\<close> is a mapping that is not empty, \<^verbatim>\<open>tweet_to_object\<close>
  returns the empty mapping and \<^verbatim>\<open>retweet_to_object\<close> adds the four share keys to it:
  when the \<^verbatim>\<open>user\<close> of the original is missing or a mapping, the result is exactly the
  mapping of \<^verbatim>\<open>objectType\<close>, \<^verbatim>\<open>verb\<close>, \<^verbatim>\<open>object\<close> and \<^verbatim>\<open>content\<close>; when the \<^verbatim>\<open>user\<close> is there
  and is no mapping, \<^verbatim>\<open>retweet_to_object\<close> raises an \<^verbatim>\<open>AttributeError\<close>.
\<close>

theorem retweet_without_id:
  assumes "\<not> truthy (dict_get kvs ''id_str'' JNull)"
    and "dict_get kvs ''retweeted_status'' JNull = JObj okvs"
    and "okvs \<noteq> []"
  shows "tweet_to_object rt (JObj kvs) = Inr (JObj []) \<and>
    retweet_to_object rt (JObj kvs) =
      (case dict_get okvs ''user'' (JObj []) of
         JObj ukvs \<Rightarrow>
           Inr (JObj [(''objectType'', JStr ''activity''),
                      (''verb'', JStr ''share''),
                      (''object'', JObj [(''url'',
                         JStr (status_url rt (dict_get ukvs ''screen_name'' JNull)
                                 (dict_get okvs ''id_str'' JNull)))]),
                      (''content'', JStr ''retweeted this.'')])
       | _ \<Rightarrow> Inl AttributeError)"
proof -
  have obj: "tweet_to_object rt (JObj kvs) = Inr (JObj [])"
    using assms(1) by (rule tweet_to_object_no_id)
  show ?thesis
    using assms(2,3)
    by (cases "dict_get okvs ''user'' (JObj [])")
      (simp_all add: obj retweet_to_object.simps dict_update_def)
qed

theorem retweet_without_id_witness:
  "retweet_to_object example_runtime
     (JObj [(''text'', JStr ''RT''),
            (''retweeted_status'',
               JObj [(''id_str'', JStr ''42''), (''user'', JObj [(''screen_name'', JStr ''alice'')])])])
   = Inr (JObj [(''objectType'', JStr ''activity''),
                (''verb'', JStr ''share''),
                (''object'', JObj [(''url'', JStr ''http://twitter.com/alice/status/42'')]),
                (''content'', JStr ''retweeted this.'')])"
  using retweet_without_id [of "[(''text'', JStr ''RT''),
            (''retweeted_status'',
               JObj [(''id_str'', JStr ''42''), (''user'', JObj [(''screen_name'', JStr ''alice'')])])]"
          "[(''id_str'', JStr ''42''), (''user'', JObj [(''screen_name'', JStr ''alice'')])]"
          example_runtime]
  by (simp add: dict_get_def status_url_def user_url_def DOMAIN_def)

text \<open>A retweet without an id whose original has \<^verbatim>\<open>None\<close> as its user.\<close>

theorem retweet_without_id_counterexample:
  "truthy (dict_get [(''retweeted_status'', JObj [(''user'', JNull)])] ''retweeted_status'' JNull) \<and>
   \<not> truthy (dict_get [(''retweeted_status'', JObj [(''user'', JNull)])] ''id_str'' JNull) \<and>
   retweet_to_object example_runtime (JObj [(''retweeted_status'', JObj [(''user'', JNull)])])
     = Inl AttributeError"
  by (simp add: dict_get_def retweet_to_object.simps tweet_to_object.simps)

subsection \<open>No null or empty value in a result\<close>

lemma list_all_update:
  "list_all P al \<Longrightarrow> P (k, v) \<Longrightarrow> list_all P (AList.update k v al)"
  by (induction al) auto

lemma tweet_to_object_trimmed:
  assumes "tweet_to_object rt tweet = Inr obj"
  shows "no_nulls obj \<and> (\<exists>okvs. obj = JObj okvs)"
proof (cases tweet)
  case (JObj kvs)
  show ?thesis
  proof (cases "truthy (dict_get kvs ''id_str'' JNull)")
    case False
    with assms JObj show ?thesis by (auto simp: tweet_to_object.simps)
  next
    case True
    with assms JObj obtain object' where "obj = trim_nulls (JObj object')"
      by (auto simp: tweet_to_object.simps object_tail_def Let_def split: sum.splits json.splits)
    then have obj: "obj = trim_nulls (JObj object')" .
    have "no_nulls obj" unfolding obj by (rule no_nulls_trim_nulls)
    moreover have "\<exists>okvs. obj = JObj okvs" unfolding obj trim_nulls.simps(1) by (rule exI) (rule refl)
    ultimately show ?thesis by simp
  qed
qed (use assms in \<open>simp_all add: tweet_to_object.simps\<close>)

lemma user_to_actor_trimmed:
  assumes "user_to_actor rt user = Inr a"
  shows "no_nulls a"
proof (cases user)
  case (JObj kvs)
  show ?thesis
  proof (cases "truthy (dict_get kvs ''screen_name'' JNull)")
    case False
    with assms JObj show ?thesis by (auto simp: user_to_actor_def)
  next
    case True
    from assms JObj have "user_to_actor rt (JObj kvs) = Inr a" by simp
    from user_to_actor_result [OF True this] obtain v where "a = trim_nulls v" by blast
    then show ?thesis by (simp only: no_nulls_trim_nulls)
  qed
qed (use assms in \<open>simp_all add: user_to_actor_def\<close>)

lemma retweet_to_object_trimmed:
  assumes "retweet_to_object rt retweet = Inr share"
  shows "no_nulls share"
proof (cases retweet)
  case (JObj kvs)
  show ?thesis
  proof (cases "truthy (dict_get kvs ''retweeted_status'' JNull)")
    case False
    with assms JObj show ?thesis by (auto simp: retweet_to_object.simps)
  next
    case True
    from assms JObj have "retweet_to_object rt (JObj kvs) = Inr share" by simp
    from retweet_to_object_result [OF True this] obtain skvs screen_name orig_id where
      obj: "tweet_to_object rt (JObj kvs) = Inr (JObj skvs)"
      and share: "share = JObj (dict_update skvs
                [(''objectType'', JStr ''activity''),
                 (''verb'', JStr ''share''),
                 (''object'', JObj [(''url'', JStr (status_url rt screen_name orig_id))]),
                 (''content'', JStr ''retweeted this.'')])"
      by blast
    from tweet_to_object_trimmed [OF obj]
    have "list_all (\<lambda>(k, v). \<not> is_null v \<and> no_nulls v) skvs" by simp
    then show ?thesis
      unfolding share dict_update_four
      by (intro no_nulls.simps(1) [THEN iffD2] list_all_update) (simp_all add: status_url_def)
  qed
qed (use assms in \<open>simp_all add: retweet_to_object.simps\<close>)

lemma tweet_to_activity_trimmed:
  assumes "postprocess_activity rt = (\<lambda>a. Inr (trim_nulls a))"
    and "tweet_to_activity rt tweet = Inr act"
  shows "no_nulls act"
proof -
  from assms obtain activity where "act = trim_nulls activity"
    by (auto simp: tweet_to_activity_def split: sum.splits json.splits)
  then show ?thesis by (simp only: no_nulls_trim_nulls)
qed

text \<open>
  C2. Whatever \<^verbatim>\<open>user_to_actor\<close>, \<^verbatim>\<open>tweet_to_object\<close> and \<^verbatim>\<open>retweet_to_object\<close> return has, at
  any depth, no key and no list element whose value is \<^verbatim>\<open>None\<close>, the empty string, the empty
  list or the empty mapping. The same holds of what \<^verbatim>\<open>tweet_to_activity\<close> returns when
  \<^verbatim>\<open>postprocess_activity\<close> is the final stripping of null and empty values.
\<close>

theorem results_have_no_nulls:
  "(\<forall>a. user_to_actor rt user = Inr a \<longrightarrow> no_nulls a) \<and>
   (\<forall>obj. tweet_to_object rt tweet = Inr obj \<longrightarrow> no_nulls obj) \<and>
   (\<forall>share. retweet_to_object rt retweet = Inr share \<longrightarrow> no_nulls share) \<and>
   (\<forall>act. postprocess_activity rt = (\<lambda>a. Inr (trim_nulls a)) \<and>
      tweet_to_activity rt tweet = Inr act \<longrightarrow> no_nulls act)"
proof (intro conjI allI impI)
  show "no_nulls a" if "user_to_actor rt user = Inr a" for a
    using that by (rule user_to_actor_trimmed)
  show "no_nulls obj" if "tweet_to_object rt tweet = Inr obj" for obj
    using tweet_to_object_trimmed [OF that] by simp
  show "no_nulls share" if "retweet_to_object rt retweet = Inr share" for share
    using that by (rule retweet_to_object_trimmed)
  show "no_nulls act"
    if "postprocess_activity rt = (\<lambda>a. Inr (trim_nulls a)) \<and> tweet_to_activity rt tweet = Inr act"
    for act
    using that by (intro tweet_to_activity_trimmed [of rt tweet act]) simp_all
qed
lemma returns_value: "\<not> isl x \<Longrightarrow> \<exists>y. x = Inr y"
  by (cases x) simp_all

lemma examples_return:
  "\<not> isl (user_to_actor example_runtime example_user)"
  "\<not> isl (tweet_to_object example_runtime example_tweet)"
  "\<not> isl (retweet_to_object example_runtime example_retweet)"
  "\<not> isl (tweet_to_activity example_runtime example_tweet)"
  by code_simp+

lemma example_postprocess:
  "postprocess_activity example_runtime = (\<lambda>a. Inr (trim_nulls a))"
  by (simp add: example_runtime_def)

theorem results_have_no_nulls_witness:
  "(\<exists>a. user_to_actor example_runtime example_user = Inr a \<and> no_nulls a) \<and>
   (\<exists>obj. tweet_to_object example_runtime example_tweet = Inr obj \<and> no_nulls obj) \<and>
   (\<exists>share. retweet_to_object example_runtime example_retweet = Inr share \<and> no_nulls share) \<and>
   (\<exists>act. tweet_to_activity example_runtime example_tweet = Inr act \<and> no_nulls act)"
proof -
  note inst = results_have_no_nulls [of example_runtime example_user example_tweet example_retweet]
  from examples_return obtain a obj share act where
    r: "user_to_actor example_runtime example_user = Inr a"
       "tweet_to_object example_runtime example_tweet = Inr obj"
       "retweet_to_object example_runtime example_retweet = Inr share"
       "tweet_to_activity example_runtime example_tweet = Inr act"
    by (blast dest: returns_value)
  with inst example_postprocess have "no_nulls a" "no_nulls obj" "no_nulls share" "no_nulls act"
    by simp_all
  with r show ?thesis by simp
qed

subsection \<open>The reply context\<close>

lemma tweet_to_activity_raw:
  assumes "tweet_to_object rt (JObj kvs) = Inr (JObj okvs)"
    and "raw_activity rt kvs okvs = Inr activity"
  shows "tweet_to_activity rt (JObj kvs) = postprocess_activity rt (JObj activity)"
  using assms by (simp add: tweet_to_activity_def)

lemma raw_activity_context:
  assumes "is_string (dict_get kvs ''source'' (JStr []))"
  shows "\<exists>activity. raw_activity rt kvs okvs = Inr activity \<and> distinct (map fst activity) \<and>
    map_of activity ''context'' =
      (if truthy (dict_get kvs ''in_reply_to_status_id'' JNull)
          \<and> truthy (dict_get kvs ''in_reply_to_screen_name'' JNull)
       then Some (JObj [(''inReplyTo'', JList [JObj
              [(''objectType'', JStr ''note''),
               (''id'', JStr (tag_uri rt (dict_get kvs ''in_reply_to_status_id'' JNull))),
               (''url'', JStr (status_url rt (dict_get kvs ''in_reply_to_screen_name'' JNull)
                                (dict_get kvs ''in_reply_to_status_id'' JNull)))]])])
       else None)"
proof -
  from assms obtain src where "dict_get kvs ''source'' (JStr []) = JStr src"
    by (cases "dict_get kvs ''source'' (JStr [])") auto
  then show ?thesis
    by (cases "re_search anchor_match src")
      (auto simp: raw_activity_def search_anchor_def Let_def map_of_update)
qed

text \<open>
  C6. Let the object conversion of a tweet succeed and its \<^verbatim>\<open>source\<close> be missing or a
  string. The mapping that \<^verbatim>\<open>tweet_to_activity\<close> builds and hands to
  \<^verbatim>\<open>postprocess_activity\<close> has, when \<^verbatim>\<open>in_reply_to_status_id\<close> and
  \<^verbatim>\<open>in_reply_to_screen_name\<close> are both there and true, the \<^verbatim>\<open>context\<close> whose \<^verbatim>\<open>inReplyTo\<close>
  is the list of one note with the tag URI and the status URL of the parent; when either is
  missing or false, it has no key \<^verbatim>\<open>context\<close>. With \<^verbatim>\<open>postprocess_activity\<close> the final
  stripping of null and empty values, the same holds of the mapping returned (the id of the
  note being dropped if the tag URI is the empty string).
\<close>

theorem reply_context:
  fixes rt kvs okvs
  defines "rid \<equiv> dict_get kvs ''in_reply_to_status_id'' JNull"
    and "rsn \<equiv> dict_get kvs ''in_reply_to_screen_name'' JNull"
  assumes obj: "tweet_to_object rt (JObj kvs) = Inr (JObj okvs)"
    and src: "is_string (dict_get kvs ''source'' (JStr []))"
  shows "\<exists>activity.
     tweet_to_activity rt (JObj kvs) = postprocess_activity rt (JObj activity) \<and>
     map_of activity ''context'' =
       (if truthy rid \<and> truthy rsn
        then Some (JObj [(''inReplyTo'', JList [JObj
               [(''objectType'', JStr ''note''),
                (''id'', JStr (tag_uri rt rid)),
                (''url'', JStr (status_url rt rsn rid))]])])
        else None) \<and>
     (postprocess_activity rt = (\<lambda>a. Inr (trim_nulls a)) \<longrightarrow>
        (\<exists>act. tweet_to_activity rt (JObj kvs) = Inr act \<and>
           field act ''context'' =
             (if truthy rid \<and> truthy rsn
              then Some (JObj [(''inReplyTo'', JList [JObj
                     ([(''objectType'', JStr ''note'')]
                      @ (if tag_uri rt rid = [] then [] else [(''id'', JStr (tag_uri rt rid))])
                      @ [(''url'', JStr (status_url rt rsn rid))])])])
              else None)))"
proof -
  from raw_activity_context [OF src, of rt okvs] obtain activity where
    raw: "raw_activity rt kvs okvs = Inr activity"
    and dist: "distinct (map fst activity)"
    and ctx: "map_of activity ''context'' =
       (if truthy rid \<and> truthy rsn
        then Some (JObj [(''inReplyTo'', JList [JObj
               [(''objectType'', JStr ''note''),
                (''id'', JStr (tag_uri rt rid)),
                (''url'', JStr (status_url rt rsn rid))]])])
        else None)"
    unfolding rid_def rsn_def by blast
  have act: "tweet_to_activity rt (JObj kvs) = postprocess_activity rt (JObj activity)"
    using obj raw by (rule tweet_to_activity_raw)
  have url: "status_url rt rsn rid \<noteq> []"
    by (simp add: status_url_def)
  have trimmed: "field (trim_nulls (JObj activity)) ''context'' =
             (if truthy rid \<and> truthy rsn
              then Some (JObj [(''inReplyTo'', JList [JObj
                     ([(''objectType'', JStr ''note'')]
                      @ (if tag_uri rt rid = [] then [] else [(''id'', JStr (tag_uri rt rid))])
                      @ [(''url'', JStr (status_url rt rsn rid))])])])
              else None)"
    unfolding field_trim_nulls [OF dist] ctx using url by (simp add: trim_nulls.simps)
  show ?thesis
  proof (intro exI [of _ activity] conjI impI)
    show "tweet_to_activity rt (JObj kvs) = postprocess_activity rt (JObj activity)" by (rule act)
    show "map_of activity ''context'' =
       (if truthy rid \<and> truthy rsn
        then Some (JObj [(''inReplyTo'', JList [JObj
               [(''objectType'', JStr ''note''),
                (''id'', JStr (tag_uri rt rid)),
                (''url'', JStr (status_url rt rsn rid))]])])
        else None)" by (rule ctx)
    assume pp: "postprocess_activity rt = (\<lambda>a. Inr (trim_nulls a))"
    have "tweet_to_activity rt (JObj kvs) = Inr (trim_nulls (JObj activity))"
      unfolding act pp by (rule refl)
    with trimmed show "\<exists>act. tweet_to_activity rt (JObj kvs) = Inr act \<and>
           field act ''context'' =
             (if truthy rid \<and> truthy rsn
              then Some (JObj [(''inReplyTo'', JList [JObj
                     ([(''objectType'', JStr ''note'')]
                      @ (if tag_uri rt rid = [] then [] else [(''id'', JStr (tag_uri rt rid))])
                      @ [(''url'', JStr (status_url rt rsn rid))])])])
              else None)"
      by (intro exI [of _ "trim_nulls (JObj activity)"] conjI)
  qed
qed
lemma example_fields_values:
  "dict_get example_fields ''in_reply_to_status_id'' JNull = JInt 7"
  "dict_get example_fields ''in_reply_to_screen_name'' JNull = JStr ''bob''"
  "dict_get example_fields ''source'' (JStr []) =
     JStr (''<a href='' @ [CHR 0x22] @ ''http://x.io/app'' @ [CHR 0x22] @ ''>MyApp</a>'')"
  by (simp_all add: example_fields_def dict_get_def)

lemma str_int_7: "str_int 7 = ''7''"
  by code_simp

theorem reply_context_witness:
  "(\<exists>act. tweet_to_activity example_runtime example_tweet = Inr act \<and>
      field act ''context'' =
        Some (JObj [(''inReplyTo'', JList [JObj
                [(''objectType'', JStr ''note''),
                 (''id'', JStr ''tag:twitter.com:7''),
                 (''url'', JStr ''http://twitter.com/bob/status/7'')]])])) \<and>
   (\<exists>act. tweet_to_activity example_runtime (JObj [(''in_reply_to_status_id'', JInt 7)]) = Inr act \<and>
      field act ''context'' = None)"
proof (rule conjI)
  from examples_return(2) obtain obj where "tweet_to_object example_runtime example_tweet = Inr obj"
    by (blast dest: returns_value)
  with tweet_to_object_trimmed [OF this] obtain okvs where
    "tweet_to_object example_runtime (JObj example_fields) = Inr (JObj okvs)"
    by (auto simp: example_tweet_def)
  from reply_context [OF this] example_postprocess
  show "\<exists>act. tweet_to_activity example_runtime example_tweet = Inr act \<and>
      field act ''context'' =
        Some (JObj [(''inReplyTo'', JList [JObj
                [(''objectType'', JStr ''note''),
                 (''id'', JStr ''tag:twitter.com:7''),
                 (''url'', JStr ''http://twitter.com/bob/status/7'')]])])"
    by (auto simp: example_fields_values example_tweet_def example_runtime_def str_int_7
          status_url_def user_url_def DOMAIN_def)
next
  have "tweet_to_object example_runtime (JObj [(''in_reply_to_status_id'', JInt 7)]) = Inr (JObj [])"
    by (simp add: tweet_to_object.simps dict_get_def)
  from reply_context [OF this] example_postprocess
  show "\<exists>act. tweet_to_activity example_runtime (JObj [(''in_reply_to_status_id'', JInt 7)]) = Inr act \<and>
      field act ''context'' = None"
    by (auto simp: dict_get_def)
qed

subsection \<open>The generator\<close>

lemma rx_many_nonempty:
  assumes "(m, r) \<in> set (rx_many P (Suc n) s)"
  shows "m \<noteq> []"
proof -
  from assms obtain k where k: "Suc n \<le> k" "k \<le> length (takeWhile P s)" and m: "m = take k s"
    by (auto simp: rx_many_def)
  have "length (takeWhile P s) \<le> length s" by (rule length_takeWhile_le)
  with k have "Suc n \<le> length s" by linarith
  with k m show ?thesis by (cases s) auto
qed

lemma anchor_match_groups:
  assumes "((url, name), r) \<in> set (anchor_match s)"
  shows "url \<noteq> [] \<and> name \<noteq> []"
proof -
  from assms obtain s1 s2 s5 s6 where
    "(url, s2) \<in> set (rx_many not_quote (Suc 0) s1)"
    "(name, s6) \<in> set (rx_many not_newline (Suc 0) s5)"
    by (auto simp: anchor_match_def List.bind_def)
  then show ?thesis by (auto dest: rx_many_nonempty)
qed

lemma re_search_Some:
  "re_search m s = Some r \<Longrightarrow> \<exists>t. r \<in> set (m t)"
proof (induction s)
  case Nil
  then have "r \<in> set (m [])" by (auto split: list.splits)
  then show ?case by blast
next
  case (Cons c s)
  show ?case
  proof (cases "m (c # s)")
    case Nil
    with Cons show ?thesis by simp
  next
    case (Cons r' rs)
    with Cons.prems have "r \<in> set (m (c # s))" by simp
    then show ?thesis by blast
  qed
qed

lemma search_anchor_groups:
  assumes "search_anchor (JStr s) = Inr (Some (url, name))"
  shows "url \<noteq> [] \<and> name \<noteq> []"
proof -
  from assms obtain r where "re_search anchor_match s = Some ((url, name), r)"
    by (auto simp: search_anchor_def)
  from re_search_Some [OF this] obtain t where "((url, name), r) \<in> set (anchor_match t)" ..
  then show ?thesis by (rule anchor_match_groups)
qed

lemma anchor_match_needs_opening:
  "rx_lit (''<a href='' @ [CHR 0x22]) s = [] \<Longrightarrow> anchor_match s = []"
  by (simp add: anchor_match_def)

lemma re_search_no_prefix:
  assumes "\<And>t. rx_lit p t = [] \<Longrightarrow> m t = []"
    and "\<forall>ps ss. s \<noteq> ps @ p @ ss"
  shows "re_search m s = None"
  using assms(2)
proof (induction s)
  case Nil
  then have "take (length p) [] \<noteq> p" by auto
  then have "m [] = []" by (intro assms(1)) (simp add: rx_lit_def)
  then show ?case by simp
next
  case (Cons c s)
  have "take (length p) (c # s) \<noteq> p"
  proof
    assume "take (length p) (c # s) = p"
    then have "c # s = [] @ p @ drop (length p) (c # s)"
      by (metis append_Nil append_take_drop_id)
    with Cons.prems show False by blast
  qed
  then have here: "m (c # s) = []" by (intro assms(1)) (simp add: rx_lit_def)
  have "\<forall>ps ss. s \<noteq> ps @ p @ ss"
  proof (intro allI notI)
    fix ps ss
    assume "s = ps @ p @ ss"
    then have "c # s = (c # ps) @ p @ ss" by simp
    with Cons.prems show False by blast
  qed
  with Cons.IH here show ?case by simp
qed

lemma search_anchor_no_tag:
  assumes "\<forall>ps ss. s \<noteq> ps @ (''<a href='' @ [CHR 0x22]) @ ss"
  shows "search_anchor (JStr s) = Inr None"
  using re_search_no_prefix [of "''<a href='' @ [CHR 0x22]" anchor_match s,
      OF anchor_match_needs_opening assms]
  by (simp add: search_anchor_def)

lemma search_anchor_example:
  "search_anchor (JStr (''<a href='' @ [CHR 0x22] @ ''http://x.io/app'' @ [CHR 0x22] @ ''>MyApp</a>''))
     = Inr (Some (''http://x.io/app'', ''MyApp''))"
  by code_simp

lemma raw_activity_generator:
  assumes "dict_get kvs ''source'' (JStr []) = JStr s"
  shows "\<exists>activity. raw_activity rt kvs okvs = Inr activity \<and> distinct (map fst activity) \<and>
    map_of activity ''generator'' =
      (case search_anchor (JStr s) of
         Inr (Some (url, name)) \<Rightarrow> Some (JObj [(''displayName'', JStr name), (''url'', JStr url)])
       | _ \<Rightarrow> None)"
  using assms
  by (cases "re_search anchor_match s")
    (auto simp: raw_activity_def search_anchor_def Let_def map_of_update)
text \<open>
  C7. Let the object conversion of a tweet succeed and its \<^verbatim>\<open>source\<close> be a string (a missing
  one counts as the empty string). The search of the pattern in it raises nothing. When it
  finds the groups \<^verbatim>\<open>URL\<close> and \<^verbatim>\<open>NAME\<close>, the mapping that \<^verbatim>\<open>tweet_to_activity\<close> builds and hands
  to \<^verbatim>\<open>postprocess_activity\<close> has the \<^verbatim>\<open>generator\<close> \<^verbatim>\<open>{displayName: NAME, url: URL}\<close>; when it
  finds nothing, the mapping has no key \<^verbatim>\<open>generator\<close>. With \<^verbatim>\<open>postprocess_activity\<close> the final
  stripping of null and empty values, the same holds of the mapping returned. The string
  \<^verbatim>\<open><a href="http://x.io/app">MyApp</a>\<close> gives the groups \<^verbatim>\<open>http://x.io/app\<close> and \<^verbatim>\<open>MyApp\<close>, and
  a string in which \<^verbatim>\<open><a href="\<close> does not occur gives nothing.
\<close>

theorem generator_from_source:
  assumes obj: "tweet_to_object rt (JObj kvs) = Inr (JObj okvs)"
    and src: "dict_get kvs ''source'' (JStr []) = JStr s"
  shows "(\<exists>activity found.
       search_anchor (JStr s) = Inr found \<and>
       tweet_to_activity rt (JObj kvs) = postprocess_activity rt (JObj activity) \<and>
       map_of activity ''generator'' =
         (case found of
            Some (url, name) \<Rightarrow> Some (JObj [(''displayName'', JStr name), (''url'', JStr url)])
          | None \<Rightarrow> None) \<and>
       (postprocess_activity rt = (\<lambda>a. Inr (trim_nulls a)) \<longrightarrow>
          (\<exists>act. tweet_to_activity rt (JObj kvs) = Inr act \<and>
             field act ''generator'' =
               (case found of
                  Some (url, name) \<Rightarrow> Some (JObj [(''displayName'', JStr name), (''url'', JStr url)])
                | None \<Rightarrow> None)))) \<and>
     search_anchor (JStr (''<a href='' @ [CHR 0x22] @ ''http://x.io/app'' @ [CHR 0x22] @ ''>MyApp</a>''))
       = Inr (Some (''http://x.io/app'', ''MyApp'')) \<and>
     (\<forall>t. (\<forall>ps ss. t \<noteq> ps @ (''<a href='' @ [CHR 0x22]) @ ss) \<longrightarrow> search_anchor (JStr t) = Inr None)"
proof (intro conjI allI impI)
  obtain found where found: "search_anchor (JStr s) = Inr found"
    by (simp add: search_anchor_def)
  from raw_activity_generator [OF src, of rt okvs] obtain activity where
    raw: "raw_activity rt kvs okvs = Inr activity"
    and dist: "distinct (map fst activity)"
    and gen: "map_of activity ''generator'' =
         (case found of
            Some (url, name) \<Rightarrow> Some (JObj [(''displayName'', JStr name), (''url'', JStr url)])
          | None \<Rightarrow> None)"
    unfolding found by (auto split: option.splits)
  have act: "tweet_to_activity rt (JObj kvs) = postprocess_activity rt (JObj activity)"
    using obj raw by (rule tweet_to_activity_raw)
  have trimmed: "field (trim_nulls (JObj activity)) ''generator'' =
         (case found of
            Some (url, name) \<Rightarrow> Some (JObj [(''displayName'', JStr name), (''url'', JStr url)])
          | None \<Rightarrow> None)"
  proof (cases found)
    case None
    then show ?thesis unfolding field_trim_nulls [OF dist] gen by simp
  next
    case (Some groups)
    obtain url name where groups: "groups = (url, name)" by (cases groups)
    from found Some groups have "url \<noteq> [] \<and> name \<noteq> []"
      by (intro search_anchor_groups [of s]) simp
    then show ?thesis
      unfolding field_trim_nulls [OF dist] gen Some groups by (simp add: trim_nulls.simps)
  qed
  have "postprocess_activity rt = (\<lambda>a. Inr (trim_nulls a)) \<longrightarrow>
          (\<exists>act. tweet_to_activity rt (JObj kvs) = Inr act \<and>
             field act ''generator'' =
               (case found of
                  Some (url, name) \<Rightarrow> Some (JObj [(''displayName'', JStr name), (''url'', JStr url)])
                | None \<Rightarrow> None))"
  proof
    assume pp: "postprocess_activity rt = (\<lambda>a. Inr (trim_nulls a))"
    have "tweet_to_activity rt (JObj kvs) = Inr (trim_nulls (JObj activity))"
      unfolding act pp by (rule refl)
    with trimmed show "\<exists>act. tweet_to_activity rt (JObj kvs) = Inr act \<and>
             field act ''generator'' =
               (case found of
                  Some (url, name) \<Rightarrow> Some (JObj [(''displayName'', JStr name), (''url'', JStr url)])
                | None \<Rightarrow> None)"
      by (intro exI [of _ "trim_nulls (JObj activity)"] conjI)
  qed
  with found act gen show "\<exists>activity found.
       search_anchor (JStr s) = Inr found \<and>
       tweet_to_activity rt (JObj kvs) = postprocess_activity rt (JObj activity) \<and>
       map_of activity ''generator'' =
         (case found of
            Some (url, name) \<Rightarrow> Some (JObj [(''displayName'', JStr name), (''url'', JStr url)])
          | None \<Rightarrow> None) \<and>
       (postprocess_activity rt = (\<lambda>a. Inr (trim_nulls a)) \<longrightarrow>
          (\<exists>act. tweet_to_activity rt (JObj kvs) = Inr act \<and>
             field act ''generator'' =
               (case found of
                  Some (url, name) \<Rightarrow> Some (JObj [(''displayName'', JStr name), (''url'', JStr url)])
                | None \<Rightarrow> None)))"
    by (intro exI [of _ activity] exI [of _ found] conjI)
next
  show "search_anchor (JStr (''<a href='' @ [CHR 0x22] @ ''http://x.io/app'' @ [CHR 0x22] @ ''>MyApp</a>''))
       = Inr (Some (''http://x.io/app'', ''MyApp''))"
    by (rule search_anchor_example)
next
  fix t
  assume "\<forall>ps ss. t \<noteq> ps @ (''<a href='' @ [CHR 0x22]) @ ss"
  then show "search_anchor (JStr t) = Inr None" by (rule search_anchor_no_tag)
qed

lemma search_anchor_web: "search_anchor (JStr ''web'') = Inr None"
  by code_simp

theorem generator_from_source_witness:
  "(\<exists>act. tweet_to_activity example_runtime example_tweet = Inr act \<and>
      field act ''generator'' =
        Some (JObj [(''displayName'', JStr ''MyApp''), (''url'', JStr ''http://x.io/app'')])) \<and>
   (\<exists>act. tweet_to_activity example_runtime (JObj [(''source'', JStr ''web'')]) = Inr act \<and>
      field act ''generator'' = None)"
proof (rule conjI)
  from examples_return(2) obtain obj where "tweet_to_object example_runtime example_tweet = Inr obj"
    by (blast dest: returns_value)
  with tweet_to_object_trimmed [OF this] obtain okvs where
    "tweet_to_object example_runtime (JObj example_fields) = Inr (JObj okvs)"
    by (auto simp: example_tweet_def)
  from generator_from_source [OF this example_fields_values(3)] example_postprocess
  show "\<exists>act. tweet_to_activity example_runtime example_tweet = Inr act \<and>
      field act ''generator'' =
        Some (JObj [(''displayName'', JStr ''MyApp''), (''url'', JStr ''http://x.io/app'')])"
    using search_anchor_example by (auto simp: example_tweet_def)
next
  have "tweet_to_object example_runtime (JObj [(''source'', JStr ''web'')]) = Inr (JObj [])"
    by (simp add: tweet_to_object.simps dict_get_def)
  moreover have "dict_get [(''source'', JStr ''web'')] ''source'' (JStr []) = JStr ''web''"
    by (simp add: dict_get_def)
  ultimately show "\<exists>act. tweet_to_activity example_runtime (JObj [(''source'', JStr ''web'')]) = Inr act \<and>
      field act ''generator'' = None"
    using generator_from_source [of example_runtime "[(''source'', JStr ''web'')]" "[]" "''web''"]
      example_postprocess search_anchor_web
    by auto
qed

subsection \<open>Spans\<close>

text \<open>A tag as the comprehensions build it: a mapping with distinct keys that has an object
  type.\<close>

definition is_tag :: "json \<Rightarrow> bool" where
  "is_tag t =
     (\<exists>kvs ty. t = JObj kvs \<and> distinct (map fst kvs) \<and>
        map_of kvs ''objectType'' = Some (JStr ty) \<and> ty \<noteq> [])"

lemma mention_tag_is_tag:
  "mention_tag rt (JObj ent) = Inr t \<Longrightarrow>
   is_tag t \<and> field t ''indices'' = Some (dict_get ent ''indices'' JNull)"
  by (auto simp: mention_tag_def is_tag_def)

lemma hashtag_tag_is_tag:
  "hashtag_tag (JObj ent) = Inr t \<Longrightarrow>
   is_tag t \<and> field t ''indices'' = Some (dict_get ent ''indices'' JNull)"
  by (auto simp: hashtag_tag_def is_tag_def split: json.splits)

lemma url_tag_is_tag:
  "url_tag (JObj ent) = Inr t \<Longrightarrow>
   is_tag t \<and> field t ''indices'' = Some (dict_get ent ''indices'' JNull)"
  by (auto simp: url_tag_def is_tag_def)

lemma map_err_all:
  "map_err f xs = Inr ys \<Longrightarrow> (\<And>x y. f x = Inr y \<Longrightarrow> P y) \<Longrightarrow> list_all P ys"
  by (induction xs arbitrary: ys) (auto split: sum.splits)

lemma map_err_nth:
  "map_err f xs = Inr ys \<Longrightarrow> length ys = length xs \<and> (\<forall>i < length xs. f (xs ! i) = Inr (ys ! i))"
proof (induction xs arbitrary: ys)
  case Nil
  then show ?case by simp
next
  case (Cons x xs)
  from Cons.prems obtain y ys' where y: "f x = Inr y" and ys': "map_err f xs = Inr ys'"
    and ys: "ys = y # ys'"
    by (auto split: sum.splits)
  from Cons.IH [OF ys'] have len: "length ys' = length xs"
    and nth: "\<forall>i < length xs. f (xs ! i) = Inr (ys' ! i)" by simp_all
  show ?case
  proof (intro conjI allI impI)
    show "length ys = length (x # xs)" using len ys by simp
    fix i assume "i < length (x # xs)"
    then show "f ((x # xs) ! i) = Inr (ys ! i)"
      using y nth ys by (cases i) simp_all
  qed
qed

lemma tags_of_all:
  assumes "tags_of f entities key = Inr ts"
    and "\<And>ent t. f (JObj ent) = Inr t \<Longrightarrow> is_tag t"
    and "\<And>v. f v \<noteq> Inl AttributeError \<Longrightarrow> \<exists>ent. v = JObj ent"
  shows "list_all is_tag ts"
proof -
  from assms(1) obtain es where "map_err f es = Inr ts"
    by (auto simp: tags_of_def split: sum.splits)
  then show ?thesis
  proof (rule map_err_all)
    fix x y assume fx: "f x = Inr y"
    then have "f x \<noteq> Inl AttributeError" by simp
    from assms(3) [OF this] obtain ent where "x = JObj ent" ..
    with fx show "is_tag y" by (auto dest: assms(2))
  qed
qed

lemma entity_tags_all:
  assumes "entity_tags rt entities = Inr tags"
  shows "list_all is_tag tags"
proof -
  from assms obtain ms hs us where
    ms: "tags_of (mention_tag rt) entities ''user_mentions'' = Inr ms"
    and hs: "tags_of hashtag_tag entities ''hashtags'' = Inr hs"
    and us: "tags_of url_tag entities ''urls'' = Inr us"
    and tags: "tags = ms @ hs @ us"
    by (auto simp: entity_tags_def split: sum.splits)
  have "list_all is_tag ms"
    using ms
    by (rule tags_of_all) (auto simp: mention_tag_is_tag mention_tag_def split: json.splits)
  moreover have "list_all is_tag hs"
    using hs
    by (rule tags_of_all) (auto simp: hashtag_tag_is_tag hashtag_tag_def split: json.splits)
  moreover have "list_all is_tag us"
    using us
    by (rule tags_of_all) (auto simp: url_tag_is_tag url_tag_def split: json.splits)
  ultimately show ?thesis by (simp add: tags)
qed

lemma map_of_delete: "map_of (AList.delete k al) k' = (if k' = k then None else map_of al k')"
  by (simp add: AList.delete_conv')

lemma dict_update_two:
  "dict_update d [(k1, v1), (k2, v2)] = AList.update k2 v2 (AList.update k1 v1 d)"
  by (simp add: dict_update_def)

text \<open>The body of the loop on a tag: when it returns, the result is a tag of the same object
  type.\<close>

lemma rewrite_span_is_tag:
  assumes "is_tag t" and "rewrite_span rt t = Inr t'"
  shows "is_tag t' \<and> field t' ''objectType'' = field t ''objectType''"
proof -
  from assms(1) obtain kvs ty where t: "t = JObj kvs" and d: "distinct (map fst kvs)"
    and ty: "map_of kvs ''objectType'' = Some (JStr ty)" "ty \<noteq> []"
    by (auto simp: is_tag_def)
  show ?thesis
  proof (cases "truthy (dict_get kvs ''indices'' JNull)")
    case False
    with assms t show ?thesis by (simp add: rewrite_span_def)
  next
    case True
    with assms(2) t obtain s len where
      t': "t' = JObj (AList.delete ''indices''
             (AList.update ''length'' len (AList.update ''startIndex'' s kvs)))"
      by (auto simp: rewrite_span_def dict_update_two Let_def split: sum.splits)
    have "distinct (map fst (AList.delete ''indices''
             (AList.update ''length'' len (AList.update ''startIndex'' s kvs))))"
      using d by (intro AList.distinct_delete distinct_update)
    with ty t show ?thesis
      unfolding t' by (auto simp: is_tag_def map_of_delete map_of_update)
  qed
qed

text \<open>The body of the loop on a tag whose span is a pair of integers.\<close>

lemma rewrite_span_pair:
  assumes "is_tag t" and "field t ''indices'' = Some (JList [JInt s, JInt e])"
  shows "\<exists>t'. rewrite_span rt t = Inr t' \<and>
    field t' ''startIndex'' = Some (JInt s) \<and> field t' ''length'' = Some (JInt (e - s)) \<and>
    field t' ''indices'' = None"
proof -
  from assms(1) obtain kvs where t: "t = JObj kvs"
    by (auto simp: is_tag_def)
  with assms(2) have "dict_get kvs ''indices'' JNull = JList [JInt s, JInt e]"
    by (simp add: dict_get_def)
  then show ?thesis
    unfolding t
    by (simp add: rewrite_span_def dict_update_two py_sub_def map_of_delete map_of_update Let_def)
qed

lemma trim_tag:
  assumes "is_tag t"
  shows "\<not> is_null (trim_nulls t)"
proof -
  from assms obtain kvs ty where t: "t = JObj kvs" and d: "distinct (map fst kvs)"
    and ty: "map_of kvs ''objectType'' = Some (JStr ty)" "ty \<noteq> []"
    by (auto simp: is_tag_def)
  have "field (trim_nulls (JObj kvs)) ''objectType'' = Some (JStr ty)"
    using ty by (simp add: field_trim_nulls [OF d])
  then show ?thesis unfolding t by (auto simp: trim_nulls.simps(1))
qed

lemma trim_tag_field:
  assumes "is_tag t"
  shows "field (trim_nulls t) k =
    (case field t k of
       None \<Rightarrow> None
     | Some v \<Rightarrow> if is_null (trim_nulls v) then None else Some (trim_nulls v))"
proof -
  from assms obtain kvs where t: "t = JObj kvs" and d: "distinct (map fst kvs)"
    by (auto simp: is_tag_def)
  show ?thesis unfolding t by (simp add: field_trim_nulls [OF d])
qed
text \<open>The keys of the object stay distinct through the steps of \<^verbatim>\<open>tweet_to_object\<close>, and
  the tags are where the loop has left them.\<close>

lemma add_author_distinct:
  "add_author rt tweet sid object = Inr object' \<Longrightarrow> distinct (map fst object) \<Longrightarrow>
   distinct (map fst object')"
  by (auto simp: add_author_def Let_def distinct_update split: sum.splits if_splits)

lemma add_media_distinct:
  "add_media entities object = Inr object' \<Longrightarrow> distinct (map fst object) \<Longrightarrow>
   distinct (map fst object')"
  by (auto simp: add_media_def distinct_update split: sum.splits if_splits json.splits)

lemma add_location_keeps:
  assumes "add_location rt tweet object = Inr object'" and "distinct (map fst object)"
  shows "distinct (map fst object') \<and> map_of object' ''tags'' = map_of object ''tags''"
  using assms
  by (auto simp: add_location_def Let_def distinct_update map_of_update
      split: sum.splits if_splits json.splits list.splits)

lemma object_head_tags:
  assumes "object_head rt tweet sid = Inr object"
  shows "\<exists>tags tags'. entity_tags rt (dict_get tweet ''entities'' (JObj [])) = Inr tags \<and>
    map_err (rewrite_span rt) tags = Inr tags' \<and>
    distinct (map fst object) \<and> map_of object ''tags'' = Some (JList tags')"
proof -
  from assms obtain published object1 object2 tags tags' where
    a: "add_author rt tweet sid
          [(''objectType'', JStr ''note''), (''published'', published),
           (''content'', dict_get tweet ''text'' JNull), (''attachments'', JList [])] = Inr object1"
    and m: "add_media (dict_get tweet ''entities'' (JObj [])) object1 = Inr object2"
    and t: "entity_tags rt (dict_get tweet ''entities'' (JObj [])) = Inr tags"
    and r: "map_err (rewrite_span rt) tags = Inr tags'"
    and o: "object = AList.update ''tags'' (JList tags') object2"
    by (auto simp: object_head_def Let_def split: sum.splits)
  have "distinct (map fst object1)" using a by (rule add_author_distinct) simp
  with m have "distinct (map fst object2)" by (rule add_media_distinct)
  with t r o show ?thesis by (auto simp: distinct_update map_of_update)
qed

lemma object_tail_tags:
  assumes "object_tail rt tweet object shares = Inr obj"
    and "distinct (map fst object)"
    and "map_of object ''tags'' = Some (JList tags')"
  shows "\<exists>object'. obj = trim_nulls (JObj object') \<and> distinct (map fst object') \<and>
    map_of object' ''tags'' = Some (JList (tags' @ shares))"
proof -
  from assms(3) have "dict_get object ''tags'' JNull = JList tags'" by (simp add: dict_get_def)
  with assms(1) obtain object' where
    loc: "add_location rt tweet (AList.update ''tags'' (JList (tags' @ shares)) object) = Inr object'"
    and obj: "obj = trim_nulls (JObj object')"
    by (auto simp: object_tail_def split: sum.splits)
  have "distinct (map fst (AList.update ''tags'' (JList (tags' @ shares)) object))"
    using assms(2) by (rule distinct_update)
  from add_location_keeps [OF loc this] obj show ?thesis by (auto simp: map_of_update)
qed

lemma tweet_to_object_tags:
  assumes "tweet_to_object rt (JObj kvs) = Inr obj"
    and "truthy (dict_get kvs ''id_str'' JNull)"
  shows "\<exists>tags tags' shares object'.
    entity_tags rt (dict_get kvs ''entities'' (JObj [])) = Inr tags \<and>
    map_err (rewrite_span rt) tags = Inr tags' \<and>
    obj = trim_nulls (JObj object') \<and> distinct (map fst object') \<and>
    map_of object' ''tags'' = Some (JList (tags' @ shares))"
proof -
  from assms obtain object shares where
    h: "object_head rt kvs (dict_get kvs ''id_str'' JNull) = Inr object"
    and t: "object_tail rt kvs object shares = Inr obj"
    by (auto simp: tweet_to_object.simps Let_def split: sum.splits)
  from object_head_tags [OF h] obtain tags tags' where
    "entity_tags rt (dict_get kvs ''entities'' (JObj [])) = Inr tags"
    "map_err (rewrite_span rt) tags = Inr tags'"
    and d: "distinct (map fst object)" and m: "map_of object ''tags'' = Some (JList tags')"
    by blast
  with object_tail_tags [OF t d m] show ?thesis by blast
qed

lemma filter_all: "list_all P xs \<Longrightarrow> filter P xs = xs"
  by (induction xs) auto

lemma trimmed_tags:
  assumes "list_all is_tag ts"
  shows "trim_nulls (JList (ts @ shares)) =
    JList (map trim_nulls ts @ filter (\<lambda>v. \<not> is_null v) (map trim_nulls shares))"
proof -
  have "list_all (\<lambda>v. \<not> is_null v) (map trim_nulls ts)"
    using assms by (induction ts) (auto simp: trim_tag)
  then show ?thesis by (simp add: trim_nulls.simps(2) filter_all)
qed
text \<open>
  C4. Let \<^verbatim>\<open>tweet_to_object\<close> return an object for a tweet with an id, and let the tag that the
  comprehensions build at position \<open>i\<close> (mentions, then hashtags, then links) carry the span
  \<^verbatim>\<open>[s, e]\<close> of two integers. Then the object has a list of tags, and the tag at position \<open>i\<close>
  of it has \<^verbatim>\<open>startIndex\<close> \<open>s\<close>, \<^verbatim>\<open>length\<close> \<open>e - s\<close>, no key \<^verbatim>\<open>indices\<close>, and the object type
  it was built with. Each kind of tag is built with the span of its entity as \<^verbatim>\<open>indices\<close>.
\<close>

theorem span_rewrite:
  assumes obj: "tweet_to_object rt (JObj kvs) = Inr obj"
    and sid: "truthy (dict_get kvs ''id_str'' JNull)"
    and tags: "entity_tags rt (dict_get kvs ''entities'' (JObj [])) = Inr tags"
    and i: "i < length tags"
    and span: "field (tags ! i) ''indices'' = Some (JList [JInt s, JInt e])"
  shows "(\<exists>out. field obj ''tags'' = Some (JList out) \<and> i < length out \<and>
       field (out ! i) ''startIndex'' = Some (JInt s) \<and>
       field (out ! i) ''length'' = Some (JInt (e - s)) \<and>
       field (out ! i) ''indices'' = None \<and>
       field (out ! i) ''objectType'' = field (tags ! i) ''objectType'') \<and>
     (\<forall>ent t. mention_tag rt (JObj ent) = Inr t \<or> hashtag_tag (JObj ent) = Inr t
          \<or> url_tag (JObj ent) = Inr t \<longrightarrow>
        field t ''indices'' = Some (dict_get ent ''indices'' JNull))"
proof (rule conjI)
  from tweet_to_object_tags [OF obj sid] tags obtain tags' shares object' where
    loop: "map_err (rewrite_span rt) tags = Inr tags'"
    and o: "obj = trim_nulls (JObj object')" and d: "distinct (map fst object')"
    and m: "map_of object' ''tags'' = Some (JList (tags' @ shares))"
    by auto
  from map_err_nth [OF loop] have len: "length tags' = length tags"
    and nth: "\<And>j. j < length tags \<Longrightarrow> rewrite_span rt (tags ! j) = Inr (tags' ! j)"
    by simp_all
  have raw: "\<And>j. j < length tags \<Longrightarrow> is_tag (tags ! j)"
    using entity_tags_all [OF tags] by (simp add: list_all_length)
  have all': "list_all is_tag tags'"
    unfolding list_all_length
  proof (intro allI impI)
    fix j assume "j < length tags'"
    with len have j: "j < length tags" by simp
    from rewrite_span_is_tag [OF raw [OF j] nth [OF j]] show "is_tag (tags' ! j)" by simp
  qed
  let ?rest = "filter (\<lambda>v. \<not> is_null v) (map trim_nulls shares)"
  let ?out = "map trim_nulls tags' @ ?rest"
  have trimmed: "trim_nulls (JList (tags' @ shares)) = JList ?out"
    using all' by (rule trimmed_tags)
  have "tags' \<noteq> []" using i len by auto
  then have "\<not> is_null (JList ?out)" by simp
  with m trimmed have f: "field obj ''tags'' = Some (JList ?out)"
    unfolding o by (simp add: field_trim_nulls [OF d])
  have i': "i < length tags'" using i len by simp
  then have out_i: "?out ! i = trim_nulls (tags' ! i)" by (simp add: nth_append)
  have tag_i: "is_tag (tags' ! i)" using all' i' by (simp add: list_all_length)
  from rewrite_span_pair [OF raw [OF i] span, of rt] nth [OF i]
  have fields: "field (tags' ! i) ''startIndex'' = Some (JInt s)"
    "field (tags' ! i) ''length'' = Some (JInt (e - s))"
    "field (tags' ! i) ''indices'' = None"
    by auto
  from raw [OF i] obtain ty where ty: "field (tags ! i) ''objectType'' = Some (JStr ty)" "ty \<noteq> []"
    by (auto simp: is_tag_def)
  from rewrite_span_is_tag [OF raw [OF i] nth [OF i]]
  have same: "field (tags' ! i) ''objectType'' = field (tags ! i) ''objectType''" by simp
  have "field (?out ! i) ''startIndex'' = Some (JInt s)"
    "field (?out ! i) ''length'' = Some (JInt (e - s))"
    "field (?out ! i) ''indices'' = None"
    "field (?out ! i) ''objectType'' = field (tags ! i) ''objectType''"
    unfolding out_i trim_tag_field [OF tag_i] fields same ty using ty(2) by simp_all
  moreover have "i < length ?out" using i' by simp
  ultimately show "\<exists>out. field obj ''tags'' = Some (JList out) \<and> i < length out \<and>
       field (out ! i) ''startIndex'' = Some (JInt s) \<and>
       field (out ! i) ''length'' = Some (JInt (e - s)) \<and>
       field (out ! i) ''indices'' = None \<and>
       field (out ! i) ''objectType'' = field (tags ! i) ''objectType''"
    using f by (intro exI [of _ ?out] conjI)
next
  show "\<forall>ent t. mention_tag rt (JObj ent) = Inr t \<or> hashtag_tag (JObj ent) = Inr t
          \<or> url_tag (JObj ent) = Inr t \<longrightarrow>
        field t ''indices'' = Some (dict_get ent ''indices'' JNull)"
    using mention_tag_is_tag hashtag_tag_is_tag url_tag_is_tag by blast
qed

lemma example_entity_tags:
  "entity_tags example_runtime (dict_get example_fields ''entities'' (JObj [])) =
     Inr [JObj [(''objectType'', JStr ''person''), (''id'', JStr ''tag:twitter.com:bob''),
                (''url'', JStr ''http://twitter.com/bob''), (''displayName'', JNull),
                (''indices'', JList [JInt 3, JInt 7])],
          JObj [(''objectType'', JStr ''hashtag''),
                (''url'', JStr ''https://twitter.com/search?q=%23x''),
                (''indices'', JList [JInt 8, JInt 10])]]"
  by code_simp

theorem span_rewrite_witness:
  "\<exists>obj out. tweet_to_object example_runtime example_tweet = Inr obj \<and>
     field obj ''tags'' = Some (JList out) \<and>
     field (out ! 1) ''objectType'' = Some (JStr ''hashtag'') \<and>
     field (out ! 1) ''startIndex'' = Some (JInt 8) \<and>
     field (out ! 1) ''length'' = Some (JInt 2) \<and>
     field (out ! 1) ''indices'' = None"
proof -
  from examples_return(2) obtain obj where
    obj: "tweet_to_object example_runtime (JObj example_fields) = Inr obj"
    by (auto simp: example_tweet_def dest: returns_value)
  have sid: "truthy (dict_get example_fields ''id_str'' JNull)"
    by (simp add: example_fields_def dict_get_def)
  from span_rewrite [OF obj sid example_entity_tags, of 1 8 10]
  obtain out where "field obj ''tags'' = Some (JList out)"
    "field (out ! 1) ''objectType'' = Some (JStr ''hashtag'')"
    "field (out ! 1) ''startIndex'' = Some (JInt 8)"
    "field (out ! 1) ''length'' = Some (JInt 2)"
    "field (out ! 1) ''indices'' = None"
    by auto
  with obj show ?thesis unfolding example_tweet_def by blast
qed

end
